theory Spec2Isabelle
  imports Complex_Main
begin

section \<open>The box experience: state, timelines and transitions\<close>

text \<open>
  The model follows \<^verbatim>\<open>BoxExperience\<close> (the class of the immersive box scene).
  Its constructor creates three cameras (\<^verbatim>\<open>camera\<close>, \<^verbatim>\<open>externalCamera\<close>,
  \<^verbatim>\<open>internalCamera\<close>); \<^verbatim>\<open>activeCamera\<close> is a reference to one of them.  A
  reference is modelled by the name of the object it points to, with \<open>Undefined\<close> for
  a field that was never assigned.
\<close>

datatype camera = Camera | ExternalCamera | InternalCamera | Undefined

text \<open>
  The three members of \<^verbatim>\<open>boxAnimations\<close> each build a GSAP timeline holding one tween.
  A timeline in flight is its kind and its playhead in seconds.  Durations are the
  \<^verbatim>\<open>duration\<close> option of each tween.  Time and progress are rationals: the code only
  compares progress with \<^verbatim>\<open>0.5\<close>.
\<close>

datatype transition = OpenBox | EnterBox | ExitBox

record timeline =
  anim :: transition
  playhead :: rat

fun duration :: "transition \<Rightarrow> rat" where
  "duration OpenBox = 3 / 2"
| "duration EnterBox = 2"
| "duration ExitBox = 2"

definition new_timeline :: "transition \<Rightarrow> timeline" where
  "new_timeline k = \<lparr>anim = k, playhead = 0\<rparr>"

record experience =
  isBoxOpen :: bool
  isInsideBox :: bool
  interactionEnabled :: bool
  controls_enabled :: bool
  activeCamera :: camera
  boxModel :: bool
  boxAnimations :: bool
  interiorLight_visible :: bool
  openingParticles :: nat
  timelines :: "timeline list"
  dispatched :: "string list"

text \<open>
  The state the constructor leaves: \<^verbatim>\<open>isBoxOpen = false\<close>, \<^verbatim>\<open>isInsideBox = false\<close>,
  \<^verbatim>\<open>interactionEnabled = true\<close>, \<^verbatim>\<open>activeCamera = externalCamera\<close>,
  \<^verbatim>\<open>controls.enabled = true\<close>, the interior light hidden.  \<open>boxModel\<close> and
  \<open>boxAnimations\<close> say whether the field is bound: both are assigned only in the
  callback of the model loader.  \<open>openingParticles\<close> counts the calls of
  \<^verbatim>\<open>createOpeningParticles\<close>; \<open>dispatched\<close> lists the custom events dispatched on the
  document.
\<close>

definition initial :: experience where
  "initial = \<lparr>isBoxOpen = False, isInsideBox = False, interactionEnabled = True,
     controls_enabled = True, activeCamera = ExternalCamera, boxModel = False,
     boxAnimations = False, interiorLight_visible = False, openingParticles = 0,
     timelines = [], dispatched = []\<rparr>"

text \<open>The loader callback: \<^verbatim>\<open>this.boxModel = gltf.scene\<close>, then \<^verbatim>\<open>setupBoxAnimations()\<close>.\<close>

definition onModelLoaded :: "experience \<Rightarrow> experience" where
  "onModelLoaded s = s\<lparr>boxModel := True, boxAnimations := True\<rparr>"

subsection \<open>The three operations\<close>

text \<open>
  Each operation returns early on its guard and otherwise creates a timeline.  Nothing else
  happens synchronously: the flags change in the tween's callbacks.
\<close>

definition start :: "transition \<Rightarrow> experience \<Rightarrow> experience" where
  "start k s = s\<lparr>timelines := timelines s @ [new_timeline k]\<rparr>"

definition boxAnimations_open :: "experience \<Rightarrow> experience" where
  "boxAnimations_open s = (if isBoxOpen s then s else start OpenBox s)"

definition boxAnimations_enterBox :: "experience \<Rightarrow> experience" where
  "boxAnimations_enterBox s = (if isInsideBox s then s else start EnterBox s)"

definition boxAnimations_exitBox :: "experience \<Rightarrow> experience" where
  "boxAnimations_exitBox s = (if \<not> isInsideBox s then s else start ExitBox s)"

subsection \<open>The callbacks of the tweens\<close>

definition setupInsideBoxControls :: "experience \<Rightarrow> experience" where
  "setupInsideBoxControls s = s\<lparr>controls_enabled := False\<rparr>"

definition createOpeningParticles :: "experience \<Rightarrow> experience" where
  "createOpeningParticles s = s\<lparr>openingParticles := openingParticles s + 1\<rparr>"

fun onStart :: "transition \<Rightarrow> experience \<Rightarrow> experience" where
  "onStart OpenBox s = s\<lparr>interactionEnabled := False, controls_enabled := False\<rparr>"
| "onStart EnterBox s = s\<lparr>interactionEnabled := False, controls_enabled := False\<rparr>"
| "onStart ExitBox s = s\<lparr>interactionEnabled := False\<rparr>"

fun onUpdate :: "transition \<Rightarrow> rat \<Rightarrow> experience \<Rightarrow> experience" where
  "onUpdate OpenBox progress s = s"
| "onUpdate EnterBox progress s =
     (if progress > 1 / 2 \<and> activeCamera s \<noteq> InternalCamera
      then s\<lparr>activeCamera := InternalCamera\<rparr> else s)"
| "onUpdate ExitBox progress s =
     (if progress > 1 / 2 \<and> activeCamera s \<noteq> ExternalCamera
      then s\<lparr>activeCamera := ExternalCamera, controls_enabled := True\<rparr> else s)"

fun onComplete :: "transition \<Rightarrow> experience \<Rightarrow> experience" where
  "onComplete OpenBox s =
     createOpeningParticles
       (s\<lparr>isBoxOpen := True, interiorLight_visible := True, interactionEnabled := True\<rparr>)"
| "onComplete EnterBox s =
     setupInsideBoxControls (s\<lparr>isInsideBox := True, interactionEnabled := True\<rparr>)"
| "onComplete ExitBox s = s\<lparr>isInsideBox := False, interactionEnabled := True\<rparr>"

subsection \<open>The animator\<close>

text \<open>
  GSAP is a library, not code of the repository.  Its documented protocol is what the model
  takes from it: a tween does not render when it is created; on every tick of the shared
  clock the playhead advances by the elapsed time, capped at the duration; \<^verbatim>\<open>onStart\<close>
  runs when the playhead leaves zero, \<^verbatim>\<open>onUpdate\<close> on every render, \<^verbatim>\<open>onComplete\<close> after
  the render that reaches the end; \<^verbatim>\<open>timeline.progress()\<close> is the playhead divided by the
  duration.  A finished timeline is dropped (\<open>None\<close>).
\<close>

definition advance :: "rat \<Rightarrow> timeline \<Rightarrow> experience \<Rightarrow> timeline option \<times> experience" where
  "advance dt tw s =
     (let k = anim tw;
          t = min (duration k) (playhead tw + dt);
          s1 = (if playhead tw = 0 \<and> 0 < t then onStart k s else s);
          s2 = onUpdate k (t / duration k) s1
      in if duration k \<le> t then (None, onComplete k s2)
         else (Some (tw\<lparr>playhead := t\<rparr>), s2))"

fun run_timelines :: "rat \<Rightarrow> timeline list \<Rightarrow> experience \<Rightarrow> timeline list \<times> experience" where
  "run_timelines dt [] s = ([], s)"
| "run_timelines dt (tw # tws) s =
     (case advance dt tw s of
        (r, s1) \<Rightarrow>
          (case run_timelines dt tws s1 of
             (rs, s2) \<Rightarrow> ((case r of None \<Rightarrow> rs | Some tw1 \<Rightarrow> tw1 # rs), s2)))"

definition tick :: "rat \<Rightarrow> experience \<Rightarrow> experience" where
  "tick dt s =
     (if dt \<le> 0 then s
      else (case run_timelines dt (timelines s) s of (tws, s1) \<Rightarrow> s1\<lparr>timelines := tws\<rparr>))"

fun ticks :: "rat list \<Rightarrow> experience \<Rightarrow> experience" where
  "ticks [] s = s"
| "ticks (dt # dts) s = ticks dts (tick dt s)"

subsection \<open>Input handlers\<close>

text \<open>
  A handler either returns or throws.  The only exception these handlers can raise is the
  \<^verbatim>\<open>TypeError\<close> of reading a property of \<^verbatim>\<open>undefined\<close>: \<^verbatim>\<open>this.boxAnimations.open\<close> while
  \<^verbatim>\<open>boxAnimations\<close> is unbound, and the ray cast against an unbound \<^verbatim>\<open>boxModel\<close>
  (\<^verbatim>\<open>Raycaster.intersectObject\<close> reads \<^verbatim>\<open>object.layers\<close> of its argument).
\<close>

datatype error = TypeError

definition call :: "(experience \<Rightarrow> experience) \<Rightarrow> experience \<Rightarrow> error + experience" where
  "call f s = (if boxAnimations s then Inr (f s) else Inl TypeError)"

text \<open>
  The click listener of the canvas.  \<open>hit\<close> is \<^verbatim>\<open>intersects.length > 0\<close>, the outcome
  of the ray cast from the active camera through the pointer against the box.
\<close>

definition onClick :: "bool \<Rightarrow> experience \<Rightarrow> error + experience" where
  "onClick hit s =
     (if \<not> interactionEnabled s then Inr s
      else if \<not> boxModel s then Inl TypeError
      else if hit then
        (if \<not> isBoxOpen s then call boxAnimations_open s
         else if \<not> isInsideBox s then call boxAnimations_enterBox s
         else Inr s)
      else if isInsideBox s then call boxAnimations_exitBox s
      else Inr s)"

text \<open>The keydown listener of the window: \<^verbatim>\<open>switch (event.code) { case 'Space': ... }\<close>.\<close>

definition onKeydown :: "string \<Rightarrow> experience \<Rightarrow> error + experience" where
  "onKeydown code s =
     (if code = ''Space'' then
        (if \<not> isBoxOpen s then call boxAnimations_open s
         else if \<not> isInsideBox s then call boxAnimations_enterBox s
         else call boxAnimations_exitBox s)
      else Inr s)"

text \<open>
  \<^verbatim>\<open>ResponsiveHandler.handleTap\<close>: the ray cast and the dispatch run only when
  \<^verbatim>\<open>boxModel\<close> is bound; the \<^verbatim>\<open>experienceTap\<close> event is dispatched either way.
\<close>

definition handleTap :: "bool \<Rightarrow> experience \<Rightarrow> error + experience" where
  "handleTap hit s =
     (case (if boxModel s then
              (if hit then
                 (if \<not> isBoxOpen s then call boxAnimations_open s
                  else if \<not> isInsideBox s then call boxAnimations_enterBox s
                  else Inr s)
               else if isInsideBox s then call boxAnimations_exitBox s
               else Inr s)
            else Inr s) of
        Inl e \<Rightarrow> Inl e
      | Inr s1 \<Rightarrow> Inr (s1\<lparr>dispatched := dispatched s1 @ [''experienceTap'']\<rparr>))"

text \<open>
  The three buttons of the test panel (\<^verbatim>\<open>CrossBrowserTester.createTestUI\<close>) call an
  operation whenever it is bound, whatever the state.
\<close>

definition testOpenBox :: "experience \<Rightarrow> experience" where
  "testOpenBox s = (if boxAnimations s then boxAnimations_open s else s)"

definition testEnterBox :: "experience \<Rightarrow> experience" where
  "testEnterBox s = (if boxAnimations s then boxAnimations_enterBox s else s)"

definition testExitBox :: "experience \<Rightarrow> experience" where
  "testExitBox s = (if boxAnimations s then boxAnimations_exitBox s else s)"

text \<open>
  The Escape key and the Home buttons of \<^verbatim>\<open>ResponsiveHandler\<close>:
  \<^verbatim>\<open>if (isInsideBox) boxAnimations.exitBox()\<close>.
\<close>

definition onEscape :: "experience \<Rightarrow> error + experience" where
  "onEscape s = (if isInsideBox s then call boxAnimations_exitBox s else Inr s)"

text \<open>
  Everything that can happen to the experience between two renders.  An exception thrown
  by a listener ends that listener only; each of the listeners above throws before it has
  changed anything, so the state after a throwing listener is the state before it.
\<close>

datatype event =
    ModelLoaded
  | Click bool
  | Keydown string
  | Tap bool
  | TestOpenBox
  | TestEnterBox
  | TestExitBox
  | Escape
  | Frame rat

fun handler :: "event \<Rightarrow> experience \<Rightarrow> error + experience" where
  "handler ModelLoaded s = Inr (onModelLoaded s)"
| "handler (Click hit) s = onClick hit s"
| "handler (Keydown code) s = onKeydown code s"
| "handler (Tap hit) s = handleTap hit s"
| "handler TestOpenBox s = Inr (testOpenBox s)"
| "handler TestEnterBox s = Inr (testEnterBox s)"
| "handler TestExitBox s = Inr (testExitBox s)"
| "handler Escape s = onEscape s"
| "handler (Frame dt) s = Inr (tick dt s)"

definition react :: "event \<Rightarrow> experience \<Rightarrow> experience" where
  "react e s = (case handler e s of Inl err \<Rightarrow> s | Inr s1 \<Rightarrow> s1)"

fun run :: "event list \<Rightarrow> experience \<Rightarrow> experience" where
  "run [] s = s"
| "run (e # es) s = run es (react e s)"

text \<open>Three states the scenario passes through, built by the operations themselves.\<close>

definition closed_state :: experience where
  "closed_state = onModelLoaded initial"

definition open_state :: experience where
  "open_state = ticks [3 / 2] (boxAnimations_open closed_state)"

definition inside_state :: experience where
  "inside_state = ticks [2] (boxAnimations_enterBox open_state)"

section \<open>Adaptive quality\<close>

text \<open>
  Quality levels are the string literals \<^verbatim>\<open>'low'\<close>, \<^verbatim>\<open>'medium'\<close>, \<^verbatim>\<open>'high'\<close>, \<^verbatim>\<open>'ultra'\<close>
  and \<^verbatim>\<open>'auto'\<close> of the two controllers.
\<close>

datatype quality = Low | Medium | High | Ultra | Auto

subsection \<open>\<^verbatim>\<open>ResponsiveHandler\<close>\<close>

text \<open>
  Device detection reads the user agent and the width of the window.  \<open>agentMobile\<close> and
  \<open>agentTablet\<close> are the outcomes of the two regular-expression tests on
  \<^verbatim>\<open>navigator.userAgent\<close>, \<open>innerWidth\<close> is \<^verbatim>\<open>window.innerWidth\<close>.
\<close>

record device =
  agentMobile :: bool
  agentTablet :: bool
  innerWidth :: nat

definition detectMobileDevice :: "device \<Rightarrow> bool" where
  "detectMobileDevice d = (agentMobile d \<and> innerWidth d < 768)"

definition detectTabletDevice :: "device \<Rightarrow> bool" where
  "detectTabletDevice d = (agentTablet d \<or> (768 \<le> innerWidth d \<and> innerWidth d < 1024))"

text \<open>
  What \<^verbatim>\<open>applyQualitySettings\<close> reads of the experience: whether \<^verbatim>\<open>composer\<close> and
  \<^verbatim>\<open>renderer\<close> are bound, and \<^verbatim>\<open>boxExperience.particles\<close> with the attributes its
  geometry has.  The particles of the experience are the opening particles, which exist
  from the completion of the open tween until their own tween removes them; their
  geometry has a \<^verbatim>\<open>position\<close> attribute and no \<^verbatim>\<open>size\<close> attribute.
\<close>

record attributes =
  hasPosition :: bool
  hasSize :: bool

record surroundings =
  composer :: bool
  renderer :: bool
  particles :: "attributes option"

text \<open>
  \<^verbatim>\<open>applyQualitySettings\<close> for the level in \<^verbatim>\<open>this.qualityLevel\<close>.  Its writes go to the
  renderer, the passes of the composer and the particles, none of which the controller
  reads back, so the model keeps the one thing that reaches the controller: whether the
  call returns or throws.  It returns at once when the composer or the renderer is unbound.
  The \<^verbatim>\<open>'medium'\<close> case, when the particles have a position attribute, writes to
  \<^verbatim>\<open>attributes.size.array\<close> and \<^verbatim>\<open>attributes.size.needsUpdate\<close>: a \<^verbatim>\<open>TypeError\<close> when
  there is no size attribute.  The other cases only assign \<^verbatim>\<open>particles.visible\<close>.
\<close>

definition applyQualitySettings :: "surroundings \<Rightarrow> quality \<Rightarrow> error option" where
  "applyQualitySettings env level =
     (if \<not> composer env \<or> \<not> renderer env then None
      else
        (case level of
           Low \<Rightarrow> None
         | Medium \<Rightarrow>
             (case particles env of
                None \<Rightarrow> None
              | Some a \<Rightarrow> (if hasPosition a \<and> \<not> hasSize a then Some TypeError else None))
         | High \<Rightarrow> None
         | Ultra \<Rightarrow> None
         | Auto \<Rightarrow> None))"

text \<open>
  \<open>avgFps\<close> and \<open>lowFpsCount\<close> are fields of \<^verbatim>\<open>this.fpsMonitor\<close>.  \<open>monitoring\<close> says
  whether \<^verbatim>\<open>monitorPerformance\<close> is still scheduled: it asks for its next frame as its
  last statement, after the evaluation, so an evaluation that throws ends the monitoring.
  Frame rates are rationals: every double is one, and the controller only compares the
  smoothed rate with 30 and 55.  The smoothing itself
  (\<^verbatim>\<open>0.7 * avgFps + 0.3 * currentFps\<close>, in floating point) is not modelled: an evaluation
  takes the value \<open>avgFps\<close> has when it runs.
\<close>

record responsive =
  isMobile :: bool
  isTablet :: bool
  qualityLevel :: quality
  avgFps :: rat
  lowFpsCount :: nat
  monitoring :: bool

text \<open>
  \<^verbatim>\<open>setupAdaptiveQuality\<close>, called by the constructor after the detection.  It applies the
  first settings, and an exception there ends the constructor.  Its closing call of
  \<^verbatim>\<open>monitorPerformance\<close> comes too early for an evaluation and starts the monitoring.
\<close>

definition setupAdaptiveQuality :: "bool \<Rightarrow> bool \<Rightarrow> surroundings \<Rightarrow> error + responsive" where
  "setupAdaptiveQuality mobile tablet env =
     (let r = \<lparr>isMobile = mobile, isTablet = tablet,
                qualityLevel = (if mobile then Low else if tablet then Medium else High),
                avgFps = 60, lowFpsCount = 0, monitoring = True\<rparr>
      in case applyQualitySettings env (qualityLevel r) of
           Some e \<Rightarrow> Inl e
         | None \<Rightarrow> Inr r)"

text \<open>
  \<^verbatim>\<open>adjustQualityBasedOnPerformance\<close>.  The result is the exception, if one was thrown,
  and the fields as they are when the call ends: in the downgrade the reset of the counter
  is the statement after \<^verbatim>\<open>applyQualitySettings()\<close>, so a throw leaves the counter as
  incremented.
\<close>

definition adjustQualityBasedOnPerformance ::
  "surroundings \<Rightarrow> responsive \<Rightarrow> error option \<times> responsive" where
  "adjustQualityBasedOnPerformance env r =
     (let fps = avgFps r in
      if fps < 30 then
        (let r1 = r\<lparr>lowFpsCount := lowFpsCount r + 1\<rparr> in
         if 3 \<le> lowFpsCount r1 then
           (if qualityLevel r1 = High then
              (let r2 = r1\<lparr>qualityLevel := Medium\<rparr> in
               case applyQualitySettings env (qualityLevel r2) of
                 Some e \<Rightarrow> (Some e, r2)
               | None \<Rightarrow> (None, r2\<lparr>lowFpsCount := 0\<rparr>))
            else if qualityLevel r1 = Medium then
              (let r2 = r1\<lparr>qualityLevel := Low\<rparr> in
               case applyQualitySettings env (qualityLevel r2) of
                 Some e \<Rightarrow> (Some e, r2)
               | None \<Rightarrow> (None, r2\<lparr>lowFpsCount := 0\<rparr>))
            else (None, r1\<lparr>lowFpsCount := 0\<rparr>))
         else (None, r1))
      else if 55 < fps \<and> qualityLevel r \<noteq> High then
        (let r1 = r\<lparr>lowFpsCount := 0\<rparr> in
         if qualityLevel r1 = Low \<and> \<not> isMobile r1 then
           (let r2 = r1\<lparr>qualityLevel := Medium\<rparr>
            in (applyQualitySettings env (qualityLevel r2), r2))
         else if qualityLevel r1 = Medium \<and> \<not> isMobile r1 \<and> \<not> isTablet r1 then
           (let r2 = r1\<lparr>qualityLevel := High\<rparr>
            in (applyQualitySettings env (qualityLevel r2), r2))
         else (None, r1))
      else (None, r\<lparr>lowFpsCount := 0\<rparr>))"

text \<open>An evaluation at a given smoothed rate, in given surroundings.\<close>

definition evaluate :: "rat \<Rightarrow> surroundings \<Rightarrow> responsive \<Rightarrow> error option \<times> responsive" where
  "evaluate fps env r = adjustQualityBasedOnPerformance env (r\<lparr>avgFps := fps\<rparr>)"

text \<open>
  What happens to the handler after its construction: a window of \<^verbatim>\<open>monitorPerformance\<close>
  ends with an evaluation, or the window is resized and \<^verbatim>\<open>onWindowResize\<close> detects the
  device again.  No window is evaluated once the monitoring has ended.
\<close>

datatype happening = Window rat surroundings | Resize device

definition onWindowResize :: "device \<Rightarrow> responsive \<Rightarrow> responsive" where
  "onWindowResize d r = r\<lparr>isMobile := detectMobileDevice d, isTablet := detectTabletDevice d\<rparr>"

fun feed :: "happening list \<Rightarrow> responsive \<Rightarrow> responsive" where
  "feed [] r = r"
| "feed (Window fps env # rest) r =
     (if monitoring r then
        (case evaluate fps env r of
           (None, r1) \<Rightarrow> feed rest r1
         | (Some e, r1) \<Rightarrow> feed rest (r1\<lparr>monitoring := False\<rparr>))
      else feed rest r)"
| "feed (Resize d # rest) r = feed rest (onWindowResize d r)"

subsection \<open>\<^verbatim>\<open>PerformanceOptimizer\<close>\<close>

text \<open>
  \<open>renderQuality\<close> and \<open>mipmapQuality\<close> record the last arguments of
  \<^verbatim>\<open>setRenderQuality\<close> and \<^verbatim>\<open>setMipmapQuality\<close>.  \<open>mobileAgent\<close> is the test of the user
  agent, \<open>hardwareConcurrency\<close> the navigator's value (0 when it is undefined).
\<close>

record optimizer =
  currentOptimizationLevel :: quality
  fpsHistory :: "rat list"
  renderQuality :: "quality option"
  mipmapQuality :: "quality option"
  mobileAgent :: bool
  hardwareConcurrency :: nat

definition applyOptimizationLevel :: "quality \<Rightarrow> optimizer \<Rightarrow> optimizer" where
  "applyOptimizationLevel level opt =
     (let o1 = opt\<lparr>currentOptimizationLevel := level\<rparr>;
          isLowEnd = (mobileAgent o1 \<or> (hardwareConcurrency o1 \<noteq> 0 \<and> hardwareConcurrency o1 \<le> 4));
          isHighEnd = (\<not> mobileAgent o1 \<and> hardwareConcurrency o1 \<noteq> 0 \<and> 8 \<le> hardwareConcurrency o1);
          lvl = (if level = Auto
                 then (if isLowEnd then Low else if isHighEnd then High else Medium)
                 else level)
      in case lvl of
           Ultra \<Rightarrow> o1\<lparr>renderQuality := Some Ultra, mipmapQuality := Some High\<rparr>
         | High \<Rightarrow> o1\<lparr>renderQuality := Some High, mipmapQuality := Some High\<rparr>
         | Medium \<Rightarrow> o1\<lparr>renderQuality := Some Medium, mipmapQuality := Some Medium\<rparr>
         | Low \<Rightarrow> o1\<lparr>renderQuality := Some Low, mipmapQuality := Some Low\<rparr>
         | Auto \<Rightarrow> o1)"

definition autoOptimize :: "optimizer \<Rightarrow> optimizer" where
  "autoOptimize opt =
     (if currentOptimizationLevel opt \<noteq> Auto then opt
      else
        (let avgFps = sum_list (fpsHistory opt) / of_nat (max 1 (length (fpsHistory opt)));
             cur = currentOptimizationLevel opt;
             newLevel =
               (if avgFps < 30 then
                  (if cur = Ultra then Some High
                   else if cur = High then Some Medium
                   else if cur = Medium then Some Low
                   else None)
                else if 55 < avgFps then
                  (if cur = Low then Some Medium
                   else if cur = Medium then Some High
                   else if cur = High then Some Ultra
                   else None)
                else None)
         in case newLevel of
              None \<Rightarrow> opt
            | Some l \<Rightarrow> (if l \<noteq> cur then applyOptimizationLevel l opt else opt)))"

section \<open>Culling and level of detail\<close>

text \<open>
  A geometry is the source geometry of a mesh or the result of
  \<^verbatim>\<open>simplifyGeometry(geometry, factor)\<close>.  A scene object carries the fields the culler
  reads and writes; the three optional geometries are the entries of \<^verbatim>\<open>userData\<close>.
\<close>

datatype geometry = Source nat | Simplified geometry rat

record mesh =
  isMesh :: bool
  noCulling :: bool
  parent :: bool
  visible :: bool
  originalVisible :: bool
  geometry :: geometry
  positionCount :: nat
  originalGeometry :: "geometry option"
  mediumGeometry :: "geometry option"
  lowGeometry :: "geometry option"

text \<open>\<^verbatim>\<open>setupModelLOD\<close>, for one child of the model.\<close>

definition setupModelLOD :: "mesh \<Rightarrow> mesh" where
  "setupModelLOD child =
     (if isMesh child then
        (let c1 = child\<lparr>originalGeometry := Some (geometry child)\<rparr> in
         if 1000 < positionCount c1
         then c1\<lparr>mediumGeometry := Some (Simplified (geometry c1) (1 / 2)),
                  lowGeometry := Some (Simplified (geometry c1) (1 / 4))\<rparr>
         else c1)
      else child)"

text \<open>\<^verbatim>\<open>setupCulling\<close>: the meshes of the scene that may be culled, each with its
  visibility at that moment stored as \<open>originalVisible\<close>.\<close>

definition setupCulling :: "mesh list \<Rightarrow> mesh list" where
  "setupCulling scene =
     map (\<lambda>ob. ob\<lparr>originalVisible := visible ob\<rparr>)
       (filter (\<lambda>ob. isMesh ob \<and> \<not> noCulling ob) scene)"

text \<open>
  The body of the loop of \<^verbatim>\<open>updateCulling\<close> for one object.  \<open>inFrustum\<close> is
  \<^verbatim>\<open>frustum.intersectsSphere\<close> of the object's world bounding sphere and \<open>distance\<close>
  is \<^verbatim>\<open>activeCamera.position.distanceTo(object.position)\<close>: both come from three.js.
\<close>

definition cullObject :: "bool \<Rightarrow> rat \<Rightarrow> mesh \<Rightarrow> mesh" where
  "cullObject inFrustum distance ob =
     (if \<not> parent ob then ob
      else
        (let o1 = ob\<lparr>visible := (inFrustum \<and> originalVisible ob)\<rparr> in
         if visible o1 then
           (case originalGeometry o1 of
              None \<Rightarrow> o1
            | Some full \<Rightarrow>
                (case (if 10 < distance then lowGeometry o1 else None) of
                   Some low \<Rightarrow> o1\<lparr>geometry := low\<rparr>
                 | None \<Rightarrow>
                     (case (if 5 < distance then mediumGeometry o1 else None) of
                        Some medium \<Rightarrow> o1\<lparr>geometry := medium\<rparr>
                      | None \<Rightarrow> o1\<lparr>geometry := full\<rparr>)))
         else o1))"

definition updateCulling :: "(mesh \<Rightarrow> bool) \<Rightarrow> (mesh \<Rightarrow> rat) \<Rightarrow> mesh list \<Rightarrow> mesh list" where
  "updateCulling inFrustum distance cullableObjects =
     map (\<lambda>ob. cullObject (inFrustum ob) (distance ob) ob) cullableObjects"

text \<open>The same object over successive frames, each with its frustum test and distance.\<close>

fun cullFrames :: "(bool \<times> rat) list \<Rightarrow> mesh \<Rightarrow> mesh" where
  "cullFrames [] ob = ob"
| "cullFrames ((inFrustum, distance) # rest) ob = cullFrames rest (cullObject inFrustum distance ob)"

section \<open>Predicates of the statements\<close>

text \<open>The active camera is one of the two cameras of the rig.\<close>

definition cam_ok :: "experience \<Rightarrow> bool" where
  "cam_ok s = (activeCamera s = ExternalCamera \<or> activeCamera s = InternalCamera)"

text \<open>The number of timelines of a kind that are in flight.\<close>

definition inFlight :: "transition \<Rightarrow> experience \<Rightarrow> nat" where
  "inFlight k s = length (filter (\<lambda>tw. anim tw = k) (timelines s))"

text \<open>A mesh of the scene for the examples: in the scene, visible, with 2000 vertices.\<close>

definition lid :: mesh where
  "lid = \<lparr>isMesh = True, noCulling = False, parent = True, visible = True,
     originalVisible = False, geometry = Source 0, positionCount = 2000,
     originalGeometry = None, mediumGeometry = None, lowGeometry = None\<rparr>"

text \<open>
  Surroundings and handlers for the examples: the scene without particles and with the
  opening particles, and the handler as \<^verbatim>\<open>setupAdaptiveQuality\<close> leaves it on a desktop,
  a tablet and a phone.
\<close>

definition quiet :: surroundings where
  "quiet = \<lparr>composer = True, renderer = True, particles = None\<rparr>"

definition with_particles :: surroundings where
  "with_particles = \<lparr>composer = True, renderer = True,
     particles = Some \<lparr>hasPosition = True, hasSize = False\<rparr>\<rparr>"

definition desktop_handler :: responsive where
  "desktop_handler = \<lparr>isMobile = False, isTablet = False, qualityLevel = High,
     avgFps = 60, lowFpsCount = 0, monitoring = True\<rparr>"

definition tablet_handler :: responsive where
  "tablet_handler = \<lparr>isMobile = False, isTablet = True, qualityLevel = Medium,
     avgFps = 60, lowFpsCount = 0, monitoring = True\<rparr>"

definition phone_handler :: responsive where
  "phone_handler = \<lparr>isMobile = True, isTablet = False, qualityLevel = Low,
     avgFps = 60, lowFpsCount = 0, monitoring = True\<rparr>"

definition wide_screen :: device where
  "wide_screen = \<lparr>agentMobile = False, agentTablet = False, innerWidth = 1440\<rparr>"

section \<open>The experience: the active camera and the runs of one transition\<close>

subsection \<open>The active camera stays on the rig\<close>

lemma cam_ok_timelines [simp]: "cam_ok (s\<lparr>timelines := x\<rparr>) = cam_ok s"
  by (simp add: cam_ok_def)

lemma cam_ok_start: "cam_ok (start k s) = cam_ok s"
  by (simp add: start_def)

lemma cam_ok_ops:
  "cam_ok (boxAnimations_open s) = cam_ok s"
  "cam_ok (boxAnimations_enterBox s) = cam_ok s"
  "cam_ok (boxAnimations_exitBox s) = cam_ok s"
  by (simp_all add: boxAnimations_open_def boxAnimations_enterBox_def
      boxAnimations_exitBox_def cam_ok_start)

lemma activeCamera_ops:
  "activeCamera (boxAnimations_open s) = activeCamera s"
  "activeCamera (boxAnimations_enterBox s) = activeCamera s"
  "activeCamera (boxAnimations_exitBox s) = activeCamera s"
  by (simp_all add: boxAnimations_open_def boxAnimations_enterBox_def
      boxAnimations_exitBox_def start_def)

lemma cam_ok_onStart: "cam_ok s \<Longrightarrow> cam_ok (onStart k s)"
  by (cases k) (simp_all add: cam_ok_def)

lemma cam_ok_onUpdate: "cam_ok s \<Longrightarrow> cam_ok (onUpdate k p s)"
  by (cases k) (simp_all add: cam_ok_def)

lemma cam_ok_onComplete: "cam_ok s \<Longrightarrow> cam_ok (onComplete k s)"
  by (cases k) (simp_all add: cam_ok_def createOpeningParticles_def setupInsideBoxControls_def)

lemma cam_ok_advance: "cam_ok s \<Longrightarrow> cam_ok (snd (advance dt tw s))"
  by (simp add: advance_def Let_def cam_ok_onStart cam_ok_onUpdate cam_ok_onComplete)

lemma cam_ok_run_timelines: "cam_ok s \<Longrightarrow> cam_ok (snd (run_timelines dt tws s))"
proof (induction tws arbitrary: s)
  case Nil
  then show ?case by simp
next
  case (Cons tw tws)
  from Cons.prems have "cam_ok (snd (advance dt tw s))" by (rule cam_ok_advance)
  then have "cam_ok (snd (run_timelines dt tws (snd (advance dt tw s))))" by (rule Cons.IH)
  then show ?case by (simp add: split_beta)
qed

lemma cam_ok_tick: "cam_ok s \<Longrightarrow> cam_ok (tick dt s)"
  using cam_ok_run_timelines [of s dt "timelines s"] by (simp add: tick_def split_beta)

lemma cam_ok_call: "cam_ok s \<Longrightarrow> call f s = Inr s1 \<Longrightarrow> cam_ok (f s)  \<Longrightarrow> cam_ok s1"
  by (auto simp: call_def split: if_splits)

lemma cam_ok_react: "cam_ok s \<Longrightarrow> cam_ok (react e s)"
proof (cases e)
  case ModelLoaded
  assume "cam_ok s" then show ?thesis using ModelLoaded by (simp add: react_def onModelLoaded_def cam_ok_def)
next
  case (Click hit)
  assume "cam_ok s" then show ?thesis using Click by (simp add: react_def onClick_def call_def cam_ok_ops)
next
  case (Keydown code)
  assume "cam_ok s" then show ?thesis using Keydown by (simp add: react_def onKeydown_def call_def cam_ok_ops)
next
  case (Tap hit)
  assume "cam_ok s" then show ?thesis using Tap by (simp add: react_def handleTap_def call_def activeCamera_ops cam_ok_def)
next
  case TestOpenBox
  assume "cam_ok s" then show ?thesis using TestOpenBox by (simp add: react_def testOpenBox_def cam_ok_ops)
next
  case TestEnterBox
  assume "cam_ok s" then show ?thesis using TestEnterBox by (simp add: react_def testEnterBox_def cam_ok_ops)
next
  case TestExitBox
  assume "cam_ok s" then show ?thesis using TestExitBox by (simp add: react_def testExitBox_def cam_ok_ops)
next
  case Escape
  assume "cam_ok s" then show ?thesis using Escape by (simp add: react_def onEscape_def call_def cam_ok_ops)
next
  case (Frame dt)
  assume "cam_ok s" then show ?thesis using Frame by (simp add: react_def cam_ok_tick)
qed

lemma cam_ok_run: "cam_ok s \<Longrightarrow> cam_ok (run es s)"
  by (induction es arbitrary: s) (simp_all add: cam_ok_react)

lemma idle_tick: "timelines s = [] \<Longrightarrow> tick dt s = s"
  by (simp add: tick_def)

lemma idle_ticks: "timelines s = [] \<Longrightarrow> ticks dts s = s"
  by (induction dts) (simp_all add: idle_tick)

subsection \<open>One timeline at a time\<close>

lemma tick_single:
  "0 < dt \<Longrightarrow> timelines s = [tw] \<Longrightarrow>
   tick dt s = (case advance dt tw s of
                  (r, s1) \<Rightarrow> s1\<lparr>timelines := (case r of None \<Rightarrow> [] | Some tw1 \<Rightarrow> [tw1])\<rparr>)"
  by (simp add: tick_def split: prod.splits option.splits)

lemma exit_step_inflight:
  assumes "0 < dt" "0 \<le> t" "t + dt < 2"
    and "timelines s = [\<lparr>anim = ExitBox, playhead = t\<rparr>]"
    and "isInsideBox s"
    and "activeCamera s = (if 1 < t then ExternalCamera else InternalCamera)"
    and "controls_enabled s = (1 < t)"
  shows "timelines (tick dt s) = [\<lparr>anim = ExitBox, playhead = t + dt\<rparr>]
       \<and> isInsideBox (tick dt s)
       \<and> activeCamera (tick dt s) = (if 1 < t + dt then ExternalCamera else InternalCamera)
       \<and> controls_enabled (tick dt s) = (1 < t + dt)
       \<and> isBoxOpen (tick dt s) = isBoxOpen s"
  using assms by (simp add: tick_single advance_def Let_def)

lemma exit_step_done:
  assumes "0 < dt" "0 \<le> t" "2 \<le> t + dt"
    and "timelines s = [\<lparr>anim = ExitBox, playhead = t\<rparr>]"
    and "activeCamera s = (if 1 < t then ExternalCamera else InternalCamera)"
    and "controls_enabled s = (1 < t)"
  shows "timelines (tick dt s) = []
       \<and> \<not> isInsideBox (tick dt s)
       \<and> interactionEnabled (tick dt s)
       \<and> activeCamera (tick dt s) = ExternalCamera
       \<and> controls_enabled (tick dt s)
       \<and> isBoxOpen (tick dt s) = isBoxOpen s"
  using assms by (simp add: tick_single advance_def Let_def)

lemma exit_run:
  assumes "\<forall>dt\<in>set dts. 0 < dt" "0 \<le> t" "t < 2"
    and "timelines s = [\<lparr>anim = ExitBox, playhead = t\<rparr>]"
    and "isInsideBox s"
    and "activeCamera s = (if 1 < t then ExternalCamera else InternalCamera)"
    and "controls_enabled s = (1 < t)"
  shows "controls_enabled (ticks dts s) = (1 < t + sum_list dts)
       \<and> activeCamera (ticks dts s) = (if 1 < t + sum_list dts then ExternalCamera else InternalCamera)
       \<and> isBoxOpen (ticks dts s) = isBoxOpen s
       \<and> (t + sum_list dts < 2 \<longrightarrow>
            isInsideBox (ticks dts s) \<and> timelines (ticks dts s) = [\<lparr>anim = ExitBox, playhead = t + sum_list dts\<rparr>])
       \<and> (2 \<le> t + sum_list dts \<longrightarrow>
            \<not> isInsideBox (ticks dts s) \<and> interactionEnabled (ticks dts s) \<and> timelines (ticks dts s) = [])"
  using assms
proof (induction dts arbitrary: s t)
  case Nil
  then show ?case by simp
next
  case (Cons dt dts)
  have pos: "0 < dt" and rest: "\<forall>d\<in>set dts. 0 < d" using Cons.prems(1) by simp_all
  have nonneg: "0 \<le> sum_list dts" using rest by (simp add: sum_list_nonneg less_imp_le)
  show ?case
  proof (cases "t + dt < 2")
    case True
    note step = exit_step_inflight [OF pos Cons.prems(2) True Cons.prems(4) Cons.prems(5) Cons.prems(6) Cons.prems(7)]
    have t': "0 \<le> t + dt" using pos Cons.prems(2) by simp
    have "controls_enabled (ticks dts (tick dt s)) = (1 < (t + dt) + sum_list dts)
       \<and> activeCamera (ticks dts (tick dt s)) = (if 1 < (t + dt) + sum_list dts then ExternalCamera else InternalCamera)
       \<and> isBoxOpen (ticks dts (tick dt s)) = isBoxOpen (tick dt s)
       \<and> ((t + dt) + sum_list dts < 2 \<longrightarrow>
            isInsideBox (ticks dts (tick dt s)) \<and> timelines (ticks dts (tick dt s)) = [\<lparr>anim = ExitBox, playhead = (t + dt) + sum_list dts\<rparr>])
       \<and> (2 \<le> (t + dt) + sum_list dts \<longrightarrow>
            \<not> isInsideBox (ticks dts (tick dt s)) \<and> interactionEnabled (ticks dts (tick dt s)) \<and> timelines (ticks dts (tick dt s)) = [])"
      using step by (intro Cons.IH [OF rest t' True]) simp_all
    then show ?thesis using step by (simp add: add.assoc)
  next
    case False
    then have fin: "2 \<le> t + dt" by simp
    note step = exit_step_done [OF pos Cons.prems(2) fin Cons.prems(4) Cons.prems(6) Cons.prems(7)]
    have "ticks dts (tick dt s) = tick dt s" using step by (simp add: idle_ticks)
    then show ?thesis using step fin nonneg by simp
  qed
qed

lemma enter_step_inflight:
  assumes "0 < dt" "0 \<le> t" "t + dt < 2"
    and "timelines s = [\<lparr>anim = EnterBox, playhead = t\<rparr>]"
    and "activeCamera s = (if 1 < t then InternalCamera else ExternalCamera)"
  shows "timelines (tick dt s) = [\<lparr>anim = EnterBox, playhead = t + dt\<rparr>]
       \<and> activeCamera (tick dt s) = (if 1 < t + dt then InternalCamera else ExternalCamera)"
  using assms by (simp add: tick_single advance_def Let_def)

lemma enter_step_done:
  assumes "0 < dt" "0 \<le> t" "2 \<le> t + dt"
    and "timelines s = [\<lparr>anim = EnterBox, playhead = t\<rparr>]"
  shows "timelines (tick dt s) = [] \<and> activeCamera (tick dt s) = InternalCamera"
  using assms by (simp add: tick_single advance_def Let_def setupInsideBoxControls_def)

lemma enter_camera_run:
  assumes "\<forall>dt\<in>set dts. 0 < dt" "0 \<le> t" "t < 2"
    and "timelines s = [\<lparr>anim = EnterBox, playhead = t\<rparr>]"
    and "activeCamera s = (if 1 < t then InternalCamera else ExternalCamera)"
  shows "activeCamera (ticks dts s) = (if 1 < t + sum_list dts then InternalCamera else ExternalCamera)"
  using assms
proof (induction dts arbitrary: s t)
  case Nil
  then show ?case by simp
next
  case (Cons dt dts)
  have pos: "0 < dt" and rest: "\<forall>d\<in>set dts. 0 < d" using Cons.prems(1) by simp_all
  have nonneg: "0 \<le> sum_list dts" using rest by (simp add: sum_list_nonneg less_imp_le)
  show ?case
  proof (cases "t + dt < 2")
    case True
    note step = enter_step_inflight [OF pos Cons.prems(2) True Cons.prems(4) Cons.prems(5)]
    have t': "0 \<le> t + dt" using pos Cons.prems(2) by simp
    have "activeCamera (ticks dts (tick dt s)) =
        (if 1 < (t + dt) + sum_list dts then InternalCamera else ExternalCamera)"
      using step by (intro Cons.IH [OF rest t' True]) simp_all
    then show ?thesis by (simp add: add.assoc)
  next
    case False
    then have fin: "2 \<le> t + dt" by simp
    note step = enter_step_done [OF pos Cons.prems(2) fin Cons.prems(4)]
    have "ticks dts (tick dt s) = tick dt s" using step by (simp add: idle_ticks)
    then show ?thesis using step fin nonneg by simp
  qed
qed

lemma exit_cam_step_inflight:
  assumes "0 < dt" "0 \<le> t" "t + dt < 2"
    and "timelines s = [\<lparr>anim = ExitBox, playhead = t\<rparr>]"
    and "activeCamera s = (if 1 < t then ExternalCamera else InternalCamera)"
  shows "timelines (tick dt s) = [\<lparr>anim = ExitBox, playhead = t + dt\<rparr>]
       \<and> activeCamera (tick dt s) = (if 1 < t + dt then ExternalCamera else InternalCamera)"
  using assms by (simp add: tick_single advance_def Let_def)

lemma exit_cam_step_done:
  assumes "0 < dt" "0 \<le> t" "2 \<le> t + dt"
    and "timelines s = [\<lparr>anim = ExitBox, playhead = t\<rparr>]"
  shows "timelines (tick dt s) = [] \<and> activeCamera (tick dt s) = ExternalCamera"
  using assms by (simp add: tick_single advance_def Let_def)

lemma exit_camera_run:
  assumes "\<forall>dt\<in>set dts. 0 < dt" "0 \<le> t" "t < 2"
    and "timelines s = [\<lparr>anim = ExitBox, playhead = t\<rparr>]"
    and "activeCamera s = (if 1 < t then ExternalCamera else InternalCamera)"
  shows "activeCamera (ticks dts s) = (if 1 < t + sum_list dts then ExternalCamera else InternalCamera)"
  using assms
proof (induction dts arbitrary: s t)
  case Nil
  then show ?case by simp
next
  case (Cons dt dts)
  have pos: "0 < dt" and rest: "\<forall>d\<in>set dts. 0 < d" using Cons.prems(1) by simp_all
  have nonneg: "0 \<le> sum_list dts" using rest by (simp add: sum_list_nonneg less_imp_le)
  show ?case
  proof (cases "t + dt < 2")
    case True
    note step = exit_cam_step_inflight [OF pos Cons.prems(2) True Cons.prems(4) Cons.prems(5)]
    have t': "0 \<le> t + dt" using pos Cons.prems(2) by simp
    have "activeCamera (ticks dts (tick dt s)) =
        (if 1 < (t + dt) + sum_list dts then ExternalCamera else InternalCamera)"
      using step by (intro Cons.IH [OF rest t' True]) simp_all
    then show ?thesis by (simp add: add.assoc)
  next
    case False
    then have fin: "2 \<le> t + dt" by simp
    note step = exit_cam_step_done [OF pos Cons.prems(2) fin Cons.prems(4)]
    have "ticks dts (tick dt s) = tick dt s" using step by (simp add: idle_ticks)
    then show ?thesis using step fin nonneg by simp
  qed
qed

lemma open_state_eq:
  "open_state = \<lparr>isBoxOpen = True, isInsideBox = False, interactionEnabled = True,
     controls_enabled = False, activeCamera = ExternalCamera, boxModel = True,
     boxAnimations = True, interiorLight_visible = True, openingParticles = 1,
     timelines = [], dispatched = []\<rparr>"
  by (simp add: open_state_def closed_state_def onModelLoaded_def initial_def
      boxAnimations_open_def start_def new_timeline_def tick_def advance_def Let_def
      createOpeningParticles_def)

lemma inside_state_eq:
  "inside_state = \<lparr>isBoxOpen = True, isInsideBox = True, interactionEnabled = True,
     controls_enabled = False, activeCamera = InternalCamera, boxModel = True,
     boxAnimations = True, interiorLight_visible = True, openingParticles = 1,
     timelines = [], dispatched = []\<rparr>"
  by (simp add: inside_state_def open_state_eq
      boxAnimations_enterBox_def start_def new_timeline_def tick_def advance_def Let_def
      setupInsideBoxControls_def)

lemma inFlight_start: "inFlight k (start j s) = inFlight k s + (if j = k then 1 else 0)"
  by (simp add: inFlight_def start_def new_timeline_def)

lemma inFlight_dispatched [simp]: "inFlight k (s\<lparr>dispatched := d\<rparr>) = inFlight k s"
  by (simp add: inFlight_def)

section \<open>The guards of the operations\<close>

text \<open>
  Claim C1, as the code has it.  Each operation is a silent no-op, the timelines included,
  when its own flag shows the target already reached: \<^verbatim>\<open>open()\<close> while \<^verbatim>\<open>isBoxOpen\<close>
  (states Open and Inside), \<^verbatim>\<open>enterBox()\<close> while \<^verbatim>\<open>isInsideBox\<close> (state Inside),
  \<^verbatim>\<open>exitBox()\<close> while not \<^verbatim>\<open>isInsideBox\<close> (states Closed and Open).  \<^verbatim>\<open>enterBox()\<close>
  tests \<^verbatim>\<open>isInsideBox\<close> only, so it starts an enter timeline whenever the viewer is not
  inside; it is the click, tap, Space and Escape handlers that never start one while the
  box is not open.
\<close>

theorem guards_of_the_operations:
  "(isBoxOpen s \<longrightarrow> boxAnimations_open s = s)
   \<and> (isInsideBox s \<longrightarrow> boxAnimations_enterBox s = s)
   \<and> (\<not> isInsideBox s \<longrightarrow> boxAnimations_exitBox s = s)
   \<and> (\<not> isInsideBox s \<longrightarrow> boxAnimations_enterBox s = start EnterBox s)
   \<and> (\<not> isBoxOpen s \<longrightarrow>
        inFlight EnterBox (react (Click hit) s) = inFlight EnterBox s
        \<and> inFlight EnterBox (react (Tap hit) s) = inFlight EnterBox s
        \<and> inFlight EnterBox (react (Keydown code) s) = inFlight EnterBox s
        \<and> inFlight EnterBox (react Escape s) = inFlight EnterBox s)"
  by (simp add: boxAnimations_open_def boxAnimations_enterBox_def boxAnimations_exitBox_def
      react_def onClick_def handleTap_def onKeydown_def onEscape_def call_def inFlight_start)

text \<open>The theorem at the three states of the scenario.\<close>

theorem guards_of_the_operations_witness:
  "boxAnimations_open open_state = open_state
   \<and> boxAnimations_open inside_state = inside_state
   \<and> boxAnimations_enterBox inside_state = inside_state
   \<and> boxAnimations_exitBox closed_state = closed_state
   \<and> boxAnimations_exitBox open_state = open_state
   \<and> boxAnimations_enterBox open_state = start EnterBox open_state
   \<and> inFlight EnterBox (react (Keydown ''Space'') closed_state) = inFlight EnterBox closed_state
   \<and> inFlight EnterBox (react (Click True) closed_state) = inFlight EnterBox closed_state"
proof -
  have o: "isBoxOpen open_state \<and> \<not> isInsideBox open_state" by (simp add: open_state_eq)
  have i: "isBoxOpen inside_state \<and> isInsideBox inside_state" by (simp add: inside_state_eq)
  have c: "\<not> isBoxOpen closed_state \<and> \<not> isInsideBox closed_state"
    by (simp add: closed_state_def onModelLoaded_def initial_def)
  show ?thesis
    using o i c guards_of_the_operations [of open_state True "''Space''"]
      guards_of_the_operations [of inside_state True "''Space''"]
      guards_of_the_operations [of closed_state True "''Space''"]
    by simp
qed

text \<open>
  Claim C1 as stated fails: \<^verbatim>\<open>enterBox()\<close> invoked on the closed box (the Test Enter Box
  button does so) starts a timeline, and after its two seconds the viewer is inside a box
  that was never opened, looking through the internal camera.
\<close>

theorem enterBox_while_closed:
  "\<not> isBoxOpen closed_state \<and> \<not> isInsideBox closed_state
   \<and> timelines closed_state = []
   \<and> timelines (boxAnimations_enterBox closed_state) = [\<lparr>anim = EnterBox, playhead = 0\<rparr>]
   \<and> react TestEnterBox closed_state = boxAnimations_enterBox closed_state
   \<and> isInsideBox (ticks [2] (boxAnimations_enterBox closed_state))
   \<and> \<not> isBoxOpen (ticks [2] (boxAnimations_enterBox closed_state))
   \<and> activeCamera (ticks [2] (boxAnimations_enterBox closed_state)) = InternalCamera"
  by (simp add: closed_state_def onModelLoaded_def initial_def react_def testEnterBox_def
      boxAnimations_enterBox_def start_def new_timeline_def tick_def advance_def Let_def
      setupInsideBoxControls_def)

section \<open>Calling \<^verbatim>\<open>open()\<close> twice\<close>




section \<open>The active camera\<close>

text \<open>
  Claim C3, as the code has it.  After every sequence of events from the constructor's
  state the active camera is the external or the internal camera.  During an
  \<^verbatim>\<open>enterBox\<close> transition that runs alone from a state outside the box with the external
  camera active, the active camera after any ticks is the internal one exactly when the
  progress sampled so far has exceeded one half (progress is the elapsed time over the
  duration, capped at one), so it changes once, at the first sample with progress
  \<^emph>\<open>greater than\<close> 0.5; and symmetrically for \<^verbatim>\<open>exitBox\<close> from inside the box.
\<close>

theorem active_camera:
  "(activeCamera (run es initial) = ExternalCamera \<or> activeCamera (run es initial) = InternalCamera)
   \<and> ((\<forall>dt\<in>set dts. 0 < dt) \<and> timelines s = [] \<and> \<not> isInsideBox s
          \<and> activeCamera s = ExternalCamera \<longrightarrow>
        activeCamera (ticks dts (boxAnimations_enterBox s)) =
          (if 1 / 2 < sum_list dts / duration EnterBox then InternalCamera else ExternalCamera))
   \<and> ((\<forall>dt\<in>set dts. 0 < dt) \<and> timelines s = [] \<and> isInsideBox s
          \<and> activeCamera s = InternalCamera \<longrightarrow>
        activeCamera (ticks dts (boxAnimations_exitBox s)) =
          (if 1 / 2 < sum_list dts / duration ExitBox then ExternalCamera else InternalCamera))"
proof (intro conjI impI)
  have "cam_ok initial" by (simp add: cam_ok_def initial_def)
  then have "cam_ok (run es initial)" by (rule cam_ok_run)
  then show "activeCamera (run es initial) = ExternalCamera \<or> activeCamera (run es initial) = InternalCamera"
    by (simp add: cam_ok_def)
next
  assume h: "(\<forall>dt\<in>set dts. 0 < dt) \<and> timelines s = [] \<and> \<not> isInsideBox s
          \<and> activeCamera s = ExternalCamera"
  have "activeCamera (ticks dts (boxAnimations_enterBox s)) =
      (if 1 < 0 + sum_list dts then InternalCamera else ExternalCamera)"
    using h by (intro enter_camera_run)
      (simp_all add: boxAnimations_enterBox_def start_def new_timeline_def)
  then show "activeCamera (ticks dts (boxAnimations_enterBox s)) =
          (if 1 / 2 < sum_list dts / duration EnterBox then InternalCamera else ExternalCamera)"
    by simp
next
  assume h: "(\<forall>dt\<in>set dts. 0 < dt) \<and> timelines s = [] \<and> isInsideBox s
          \<and> activeCamera s = InternalCamera"
  have "activeCamera (ticks dts (boxAnimations_exitBox s)) =
      (if 1 < 0 + sum_list dts then ExternalCamera else InternalCamera)"
    using h by (intro exit_camera_run)
      (simp_all add: boxAnimations_exitBox_def start_def new_timeline_def)
  then show "activeCamera (ticks dts (boxAnimations_exitBox s)) =
          (if 1 / 2 < sum_list dts / duration ExitBox then ExternalCamera else InternalCamera)"
    by simp
qed

text \<open>The theorem on a run of events and on three runs of ticks.\<close>

theorem active_camera_witness:
  "activeCamera (run [ModelLoaded, Keydown ''Space'', Frame 2, Click True, Frame 1] initial) = ExternalCamera
   \<and> activeCamera (ticks [1 / 2, 1 / 2] (boxAnimations_enterBox open_state)) = ExternalCamera
   \<and> activeCamera (ticks [1 / 2, 1 / 2, 1 / 4] (boxAnimations_enterBox open_state)) = InternalCamera
   \<and> activeCamera (ticks [1, 1 / 4, 1] (boxAnimations_exitBox inside_state)) = ExternalCamera"
proof -
  have a: "(\<forall>dt\<in>set [1 / 2, 1 / 2 :: rat]. 0 < dt) \<and> timelines open_state = []
      \<and> \<not> isInsideBox open_state \<and> activeCamera open_state = ExternalCamera"
    by (simp add: open_state_eq)
  have b: "(\<forall>dt\<in>set [1 / 2, 1 / 2, 1 / 4 :: rat]. 0 < dt) \<and> timelines open_state = []
      \<and> \<not> isInsideBox open_state \<and> activeCamera open_state = ExternalCamera"
    by (simp add: open_state_eq)
  have c: "(\<forall>dt\<in>set [1, 1 / 4, 1 :: rat]. 0 < dt) \<and> timelines inside_state = []
      \<and> isInsideBox inside_state \<and> activeCamera inside_state = InternalCamera"
    by (simp add: inside_state_eq)
  have 1: "activeCamera (ticks [1 / 2, 1 / 2] (boxAnimations_enterBox open_state)) = ExternalCamera"
    using a active_camera [of "[]" "[1 / 2, 1 / 2]" open_state] by simp
  have 2: "activeCamera (ticks [1 / 2, 1 / 2, 1 / 4] (boxAnimations_enterBox open_state)) = InternalCamera"
    using b active_camera [of "[]" "[1 / 2, 1 / 2, 1 / 4]" open_state] by simp
  have 3: "activeCamera (ticks [1, 1 / 4, 1] (boxAnimations_exitBox inside_state)) = ExternalCamera"
    using c active_camera [of "[]" "[1, 1 / 4, 1]" inside_state] by simp
  have 0: "activeCamera (run [ModelLoaded, Keydown ''Space'', Frame 2, Click True, Frame 1] initial) = ExternalCamera"
    by code_simp
  from 0 1 2 3 show ?thesis by simp
qed

text \<open>
  Claim C3 as stated fails at a sample of exactly one half: after one second of the two
  the progress is 0.5 and the external camera is still active; the swap comes with the
  next sample.
\<close>

theorem swap_needs_more_than_half:
  "timelines (ticks [1] (boxAnimations_enterBox open_state)) = [\<lparr>anim = EnterBox, playhead = 1\<rparr>]
   \<and> (1::rat) / duration EnterBox = 1 / 2
   \<and> activeCamera (ticks [1] (boxAnimations_enterBox open_state)) = ExternalCamera
   \<and> activeCamera (ticks [1, 1 / 4] (boxAnimations_enterBox open_state)) = InternalCamera"
  by (simp add: open_state_eq boxAnimations_enterBox_def start_def new_timeline_def
      tick_def advance_def Let_def)

section \<open>Activation before the model is bound\<close>

text \<open>
  Claim C4 against the code: in the constructor's state, before the loader has bound
  \<^verbatim>\<open>boxModel\<close> and \<^verbatim>\<open>boxAnimations\<close>, the Space key and the click both end in a
  \<^verbatim>\<open>TypeError\<close>; only the tap handler tests \<^verbatim>\<open>boxModel\<close> first and returns normally.
\<close>

theorem activation_before_model_loaded:
  "\<not> boxModel initial \<and> \<not> boxAnimations initial
   \<and> onKeydown ''Space'' initial = Inl TypeError
   \<and> onClick hit initial = Inl TypeError
   \<and> handleTap hit initial = Inr (initial\<lparr>dispatched := [''experienceTap'']\<rparr>)"
  by (simp add: initial_def onKeydown_def onClick_def handleTap_def call_def)

section \<open>Leaving the box\<close>

text \<open>
  Claim C7, as the code has it.  When \<^verbatim>\<open>exitBox()\<close> runs alone from the Inside state
  (internal camera active, orbit controls disabled), the orbit controls are enabled again
  exactly when the sampled progress has exceeded one half, together with the swap of
  the camera; while the elapsed time is below the duration the viewer is still inside and
  the timeline in flight; from the completion on \<^verbatim>\<open>isInsideBox\<close> is false,
  \<^verbatim>\<open>isBoxOpen\<close> is unchanged, interaction is enabled, the external camera is active and
  no timeline is left.
\<close>

theorem exitBox_run:
  assumes "\<forall>dt\<in>set dts. 0 < dt"
    and "timelines s = []" and "isInsideBox s"
    and "activeCamera s = InternalCamera" and "\<not> controls_enabled s"
  shows "controls_enabled (ticks dts (boxAnimations_exitBox s))
           = (1 / 2 < sum_list dts / duration ExitBox)
       \<and> (sum_list dts < duration ExitBox \<longrightarrow>
            isInsideBox (ticks dts (boxAnimations_exitBox s))
            \<and> timelines (ticks dts (boxAnimations_exitBox s)) \<noteq> [])
       \<and> (duration ExitBox \<le> sum_list dts \<longrightarrow>
            \<not> isInsideBox (ticks dts (boxAnimations_exitBox s))
            \<and> isBoxOpen (ticks dts (boxAnimations_exitBox s)) = isBoxOpen s
            \<and> interactionEnabled (ticks dts (boxAnimations_exitBox s))
            \<and> activeCamera (ticks dts (boxAnimations_exitBox s)) = ExternalCamera
            \<and> timelines (ticks dts (boxAnimations_exitBox s)) = [])"
proof -
  let ?s = "boxAnimations_exitBox s"
  have tl: "timelines ?s = [\<lparr>anim = ExitBox, playhead = 0\<rparr>]"
    using assms by (simp add: boxAnimations_exitBox_def start_def new_timeline_def)
  have fl: "isInsideBox ?s" "isBoxOpen ?s = isBoxOpen s"
    "activeCamera ?s = (if (1::rat) < 0 then ExternalCamera else InternalCamera)"
    "controls_enabled ?s = ((1::rat) < 0)"
    using assms by (simp_all add: boxAnimations_exitBox_def start_def)
  have z: "(0::rat) \<le> 0" "(0::rat) < 2" by simp_all
  from exit_run [OF assms(1) z tl fl(1) fl(3) fl(4)] fl(2)
  show ?thesis by simp
qed

text \<open>The theorem on a run to three quarters and on a complete run from inside the box.\<close>

theorem exitBox_run_witness:
  "controls_enabled (ticks [1 / 2, 1] (boxAnimations_exitBox inside_state))
   \<and> isInsideBox (ticks [1 / 2, 1] (boxAnimations_exitBox inside_state))
   \<and> \<not> isInsideBox (ticks [1 / 2, 1, 1] (boxAnimations_exitBox inside_state))
   \<and> isBoxOpen (ticks [1 / 2, 1, 1] (boxAnimations_exitBox inside_state))
   \<and> timelines (ticks [1 / 2, 1, 1] (boxAnimations_exitBox inside_state)) = []"
proof -
  have h: "timelines inside_state = []" "isInsideBox inside_state"
    "activeCamera inside_state = InternalCamera" "\<not> controls_enabled inside_state"
    by (simp_all add: inside_state_eq)
  have a: "\<forall>dt\<in>set [1 / 2, 1 :: rat]. 0 < dt" by simp
  have b: "\<forall>dt\<in>set [1 / 2, 1, 1 :: rat]. 0 < dt" by simp
  have o: "isBoxOpen inside_state" by (simp add: inside_state_eq)
  show ?thesis
    using exitBox_run [OF a h] exitBox_run [OF b h] o by simp
qed

text \<open>
  Claim C7 as stated fails: at three quarters of the exit the orbit controls are already
  enabled, while the viewer is still inside and the timeline still in flight.
\<close>

theorem orbit_enabled_before_completion:
  "\<not> controls_enabled inside_state
   \<and> controls_enabled (ticks [3 / 2] (boxAnimations_exitBox inside_state))
   \<and> isInsideBox (ticks [3 / 2] (boxAnimations_exitBox inside_state))
   \<and> timelines (ticks [3 / 2] (boxAnimations_exitBox inside_state))
       = [\<lparr>anim = ExitBox, playhead = 3 / 2\<rparr>]"
  by (simp add: inside_state_eq boxAnimations_exitBox_def start_def new_timeline_def
      tick_def advance_def Let_def)

section \<open>The Space key\<close>

text \<open>
  Claim C10 against the code: in the constructor's state, where the box is not open and
  \<^verbatim>\<open>boxAnimations\<close> is not yet bound, the Space key does not trigger \<^verbatim>\<open>open()\<close>: the
  listener throws a \<^verbatim>\<open>TypeError\<close>, the state is unchanged and no timeline is started.
\<close>

theorem space_in_the_constructor_state:
  "\<not> isBoxOpen initial \<and> \<not> isInsideBox initial \<and> \<not> boxAnimations initial
   \<and> onKeydown ''Space'' initial = Inl TypeError
   \<and> react (Keydown ''Space'') initial = initial
   \<and> timelines (react (Keydown ''Space'') initial) = []"
  by (simp add: initial_def onKeydown_def call_def react_def)

text \<open>
  Once \<^verbatim>\<open>boxAnimations\<close> is bound, the Space key creates the timeline of the transition
  that matches the state, whatever the pointer hits and whether or not interaction is
  enabled: open when the box is not open, enter when it is open and the viewer not inside,
  exit when inside.  The click (when interaction is enabled) and the tap create the open or
  the enter timeline only on a hit, the exit timeline only on a miss while inside, and
  nothing otherwise.
\<close>

lemma space_dispatch:
  assumes "boxAnimations s"
  shows "onKeydown ''Space'' s
           = Inr (s\<lparr>timelines := timelines s @
                    [\<lparr>anim = (if \<not> isBoxOpen s then OpenBox
                              else if \<not> isInsideBox s then EnterBox else ExitBox),
                      playhead = 0\<rparr>]\<rparr>)
       \<and> (boxModel s \<and> interactionEnabled s \<longrightarrow>
            onClick hit s
              = Inr (if hit \<and> \<not> isBoxOpen s
                       then s\<lparr>timelines := timelines s @ [\<lparr>anim = OpenBox, playhead = 0\<rparr>]\<rparr>
                     else if hit \<and> \<not> isInsideBox s
                       then s\<lparr>timelines := timelines s @ [\<lparr>anim = EnterBox, playhead = 0\<rparr>]\<rparr>
                     else if \<not> hit \<and> isInsideBox s
                       then s\<lparr>timelines := timelines s @ [\<lparr>anim = ExitBox, playhead = 0\<rparr>]\<rparr>
                     else s))
       \<and> (boxModel s \<longrightarrow>
            handleTap hit s
              = Inr ((if hit \<and> \<not> isBoxOpen s
                       then s\<lparr>timelines := timelines s @ [\<lparr>anim = OpenBox, playhead = 0\<rparr>]\<rparr>
                      else if hit \<and> \<not> isInsideBox s
                       then s\<lparr>timelines := timelines s @ [\<lparr>anim = EnterBox, playhead = 0\<rparr>]\<rparr>
                      else if \<not> hit \<and> isInsideBox s
                       then s\<lparr>timelines := timelines s @ [\<lparr>anim = ExitBox, playhead = 0\<rparr>]\<rparr>
                      else s)
                     \<lparr>dispatched := dispatched s @ [''experienceTap'']\<rparr>))"
  using assms
  by (simp add: onKeydown_def onClick_def handleTap_def call_def boxAnimations_open_def
      boxAnimations_enterBox_def boxAnimations_exitBox_def start_def new_timeline_def)

lemma space_dispatch_examples:
  "onKeydown ''Space'' closed_state
     = Inr (closed_state\<lparr>timelines := [\<lparr>anim = OpenBox, playhead = 0\<rparr>]\<rparr>)"
  "onKeydown ''Space'' open_state
     = Inr (open_state\<lparr>timelines := [\<lparr>anim = EnterBox, playhead = 0\<rparr>]\<rparr>)"
  "onKeydown ''Space'' inside_state
     = Inr (inside_state\<lparr>timelines := [\<lparr>anim = ExitBox, playhead = 0\<rparr>]\<rparr>)"
  "onClick False closed_state = Inr closed_state"
  "onClick False open_state = Inr open_state"
  "onClick True inside_state = Inr inside_state"
proof -
  have c: "boxAnimations closed_state" "boxModel closed_state" "interactionEnabled closed_state"
    "\<not> isBoxOpen closed_state" "\<not> isInsideBox closed_state" "timelines closed_state = []"
    by (simp_all add: closed_state_def onModelLoaded_def initial_def)
  have o: "boxAnimations open_state" "boxModel open_state" "interactionEnabled open_state"
    "isBoxOpen open_state" "\<not> isInsideBox open_state" "timelines open_state = []"
    by (simp_all add: open_state_eq)
  have i: "boxAnimations inside_state" "boxModel inside_state" "interactionEnabled inside_state"
    "isBoxOpen inside_state" "isInsideBox inside_state" "timelines inside_state = []"
    by (simp_all add: inside_state_eq)
  show "onKeydown ''Space'' closed_state
     = Inr (closed_state\<lparr>timelines := [\<lparr>anim = OpenBox, playhead = 0\<rparr>]\<rparr>)"
    using space_dispatch [OF c(1), of True] c by simp
  show "onKeydown ''Space'' open_state
     = Inr (open_state\<lparr>timelines := [\<lparr>anim = EnterBox, playhead = 0\<rparr>]\<rparr>)"
    using space_dispatch [OF o(1), of True] o by simp
  show "onKeydown ''Space'' inside_state
     = Inr (inside_state\<lparr>timelines := [\<lparr>anim = ExitBox, playhead = 0\<rparr>]\<rparr>)"
    using space_dispatch [OF i(1), of True] i by simp
  show "onClick False closed_state = Inr closed_state"
    using space_dispatch [OF c(1), of False] c by simp
  show "onClick False open_state = Inr open_state"
    using space_dispatch [OF o(1), of False] o by simp
  show "onClick True inside_state = Inr inside_state"
    using space_dispatch [OF i(1), of True] i by simp
qed

section \<open>The adaptive quality controller\<close>

subsection \<open>When an evaluation returns\<close>

text \<open>
  Applying the settings throws only in the \<^verbatim>\<open>'medium'\<close> case, and there only when
  particles with a position attribute and without a size attribute exist.  An evaluation
  throws only through that call.
\<close>

lemma applyQualitySettings_throws:
  "applyQualitySettings env level = Some e \<longleftrightarrow>
     (e = TypeError \<and> level = Medium \<and> composer env \<and> renderer env
      \<and> (\<exists>a. particles env = Some a \<and> hasPosition a \<and> \<not> hasSize a))"
  by (cases level; cases e) (auto simp: applyQualitySettings_def split: option.splits)

lemma applyQualitySettings_other:
  "level \<noteq> Medium \<Longrightarrow> applyQualitySettings env level = None"
  by (cases level) (simp_all add: applyQualitySettings_def)

lemma applyQualitySettings_no_particles:
  "particles env = None \<Longrightarrow> applyQualitySettings env level = None"
  by (cases level) (simp_all add: applyQualitySettings_def)

lemma evaluate_returns:
  "applyQualitySettings env Medium = None \<Longrightarrow> fst (evaluate fps env r) = None"
  by (simp add: evaluate_def adjustQualityBasedOnPerformance_def Let_def
      applyQualitySettings_other)

subsection \<open>What one evaluation does\<close>

lemma evaluate_low:
  assumes "fps < 30" and "evaluate fps env r = (None, r')"
  shows "r' =
    (if 3 \<le> lowFpsCount r + 1
     then r\<lparr>avgFps := fps, lowFpsCount := 0,
            qualityLevel := (case qualityLevel r of High \<Rightarrow> Medium | Medium \<Rightarrow> Low | q \<Rightarrow> q)\<rparr>
     else r\<lparr>avgFps := fps, lowFpsCount := lowFpsCount r + 1\<rparr>)"
  using assms
  by (cases "qualityLevel r")
    (auto simp: evaluate_def adjustQualityBasedOnPerformance_def Let_def
      split: if_splits option.splits)

lemma evaluate_high:
  assumes "55 < fps"
  shows "snd (evaluate fps env r) =
    r\<lparr>avgFps := fps, lowFpsCount := 0,
       qualityLevel := (if qualityLevel r = Low \<and> \<not> isMobile r then Medium
                        else if qualityLevel r = Medium \<and> \<not> isMobile r \<and> \<not> isTablet r then High
                        else qualityLevel r)\<rparr>"
  using assms by (simp add: evaluate_def adjustQualityBasedOnPerformance_def Let_def)

lemma evaluate_frame [simp]:
  "isMobile (snd (evaluate fps env r)) = isMobile r"
  "isTablet (snd (evaluate fps env r)) = isTablet r"
  "monitoring (snd (evaluate fps env r)) = monitoring r"
  by (simp_all add: evaluate_def adjustQualityBasedOnPerformance_def Let_def
      split: option.splits)

lemma evaluate_ceiling:
  assumes "isMobile r \<or> isTablet r" "qualityLevel r = Low \<or> qualityLevel r = Medium"
  shows "qualityLevel (snd (evaluate fps env r)) = Low
       \<or> qualityLevel (snd (evaluate fps env r)) = Medium"
  using assms
  by (auto simp: evaluate_def adjustQualityBasedOnPerformance_def Let_def split: option.splits)

lemma evaluate_counter:
  "lowFpsCount r \<le> 2 \<Longrightarrow> evaluate fps env r = (None, r') \<Longrightarrow> lowFpsCount r' \<le> 2"
  by (auto simp: evaluate_def adjustQualityBasedOnPerformance_def Let_def
      split: if_splits option.splits)

subsection \<open>Runs of the handler\<close>

lemma feed_Window:
  "feed (Window fps env # rest) r =
     (if monitoring r then
        feed rest (if fst (evaluate fps env r) = None then snd (evaluate fps env r)
                   else (snd (evaluate fps env r))\<lparr>monitoring := False\<rparr>)
      else feed rest r)"
  by (cases "evaluate fps env r") (auto split: option.splits)

lemma feed_ceiling:
  assumes "isMobile r \<or> isTablet r" "qualityLevel r = Low \<or> qualityLevel r = Medium"
    and "\<forall>d. Resize d \<in> set hs \<longrightarrow> detectMobileDevice d \<or> detectTabletDevice d"
  shows "qualityLevel (feed hs r) = Low \<or> qualityLevel (feed hs r) = Medium"
  using assms
proof (induction hs arbitrary: r)
  case Nil
  then show ?case by simp
next
  case (Cons h hs)
  have rest: "\<forall>d. Resize d \<in> set hs \<longrightarrow> detectMobileDevice d \<or> detectTabletDevice d"
    using Cons.prems(3) by simp
  show ?case
  proof (cases h)
    case (Window fps env)
    let ?r = "snd (evaluate fps env r)"
    have dev: "isMobile ?r \<or> isTablet ?r" using Cons.prems(1) by simp
    have lev: "qualityLevel ?r = Low \<or> qualityLevel ?r = Medium"
      using Cons.prems(1,2) by (rule evaluate_ceiling)
    have 1: "qualityLevel (feed hs ?r) = Low \<or> qualityLevel (feed hs ?r) = Medium"
      using dev lev rest by (rule Cons.IH)
    have 2: "qualityLevel (feed hs (?r\<lparr>monitoring := False\<rparr>)) = Low
        \<or> qualityLevel (feed hs (?r\<lparr>monitoring := False\<rparr>)) = Medium"
      using dev lev rest by (intro Cons.IH) simp_all
    have 3: "qualityLevel (feed hs r) = Low \<or> qualityLevel (feed hs r) = Medium"
      using Cons.prems(1,2) rest by (rule Cons.IH)
    show ?thesis unfolding Window feed_Window using 1 2 3 by simp
  next
    case (Resize d)
    have "detectMobileDevice d \<or> detectTabletDevice d" using Cons.prems(3) Resize by simp
    then have "qualityLevel (feed hs (onWindowResize d r)) = Low
        \<or> qualityLevel (feed hs (onWindowResize d r)) = Medium"
      using Cons.prems(2) rest by (intro Cons.IH) (simp_all add: onWindowResize_def)
    then show ?thesis using Resize by simp
  qed
qed

lemma feed_counter:
  assumes "monitoring r \<longrightarrow> lowFpsCount r \<le> 2"
  shows "monitoring (feed hs r) \<longrightarrow> lowFpsCount (feed hs r) \<le> 2"
  using assms
proof (induction hs arbitrary: r)
  case Nil
  then show ?case by simp
next
  case (Cons h hs)
  show ?case
  proof (cases h)
    case (Window fps env)
    show ?thesis
    proof (cases "monitoring r")
      case True
      obtain x r1 where ev: "evaluate fps env r = (x, r1)" by (cases "evaluate fps env r")
      have m: "monitoring r1 = monitoring r" using evaluate_frame(3) [of fps env r] ev by simp
      show ?thesis
      proof (cases x)
        case None
        have "lowFpsCount r1 \<le> 2" using Cons.prems True ev None by (auto intro: evaluate_counter)
        then have "monitoring (feed hs r1) \<longrightarrow> lowFpsCount (feed hs r1) \<le> 2"
          by (intro Cons.IH) simp
        then show ?thesis using Window True ev None by simp
      next
        case (Some e)
        have "monitoring (feed hs (r1\<lparr>monitoring := False\<rparr>))
            \<longrightarrow> lowFpsCount (feed hs (r1\<lparr>monitoring := False\<rparr>)) \<le> 2"
          by (intro Cons.IH) simp
        then show ?thesis using Window True ev Some by simp
      qed
    next
      case False
      have "monitoring (feed hs r) \<longrightarrow> lowFpsCount (feed hs r) \<le> 2"
        using Cons.prems by (rule Cons.IH)
      then show ?thesis using Window False by simp
    qed
  next
    case (Resize d)
    have "monitoring (feed hs (onWindowResize d r)) \<longrightarrow> lowFpsCount (feed hs (onWindowResize d r)) \<le> 2"
      using Cons.prems by (intro Cons.IH) (simp add: onWindowResize_def)
    then show ?thesis using Resize by simp
  qed
qed

lemma setupAdaptiveQuality_examples:
  "setupAdaptiveQuality False False quiet = Inr desktop_handler"
  "setupAdaptiveQuality False True quiet = Inr tablet_handler"
  "setupAdaptiveQuality True False quiet = Inr phone_handler"
  by (simp_all add: setupAdaptiveQuality_def applyQualitySettings_def quiet_def Let_def
      desktop_handler_def tablet_handler_def phone_handler_def)

lemma setupAdaptiveQuality_fresh:
  assumes "setupAdaptiveQuality mobile tablet env = Inr r"
  shows "monitoring r \<and> lowFpsCount r = 0 \<and> isMobile r = mobile \<and> isTablet r = tablet
       \<and> qualityLevel r = (if mobile then Low else if tablet then Medium else High)"
  using assms by (auto simp: setupAdaptiveQuality_def Let_def split: option.splits)

text \<open>
  \<^verbatim>\<open>PerformanceOptimizer.autoOptimize\<close> never changes anything: it returns at once unless
  the level is \<^verbatim>\<open>'auto'\<close>, and none of its branches is for \<^verbatim>\<open>'auto'\<close>.
\<close>

lemma autoOptimize_idle: "autoOptimize opt = opt"
  by (simp add: autoOptimize_def Let_def)

text \<open>
  While the opening particles exist, the step to medium throws: in the downgrade the
  counter keeps its 3, in the upgrade the fields are already written, and either way the
  monitoring ends.
\<close>

lemma step_to_medium_with_opening_particles:
  "evaluate 20 with_particles (desktop_handler\<lparr>lowFpsCount := 2\<rparr>)
     = (Some TypeError, desktop_handler\<lparr>avgFps := 20, lowFpsCount := 3, qualityLevel := Medium\<rparr>)"
  "\<not> monitoring (feed [Window 20 quiet, Window 20 quiet, Window 20 with_particles] desktop_handler)"
  "evaluate 60 with_particles (desktop_handler\<lparr>qualityLevel := Low\<rparr>)
     = (Some TypeError, desktop_handler\<lparr>avgFps := 60, qualityLevel := Medium\<rparr>)"
  by (simp_all add: evaluate_def adjustQualityBasedOnPerformance_def applyQualitySettings_def
      with_particles_def quiet_def desktop_handler_def Let_def)

text \<open>
  A resize that detects a desktop lifts the ceiling: a handler built on a tablet, at
  medium, rises to high in the next high window.
\<close>

lemma resize_lifts_the_ceiling:
  "detectTabletDevice (wide_screen\<lparr>innerWidth := 800\<rparr>)"
  "\<not> detectMobileDevice wide_screen \<and> \<not> detectTabletDevice wide_screen"
  "qualityLevel (feed [Window 60 quiet] tablet_handler) = Medium"
  "qualityLevel (feed [Resize wide_screen, Window 60 quiet] tablet_handler) = High"
  by (simp_all add: evaluate_def adjustQualityBasedOnPerformance_def applyQualitySettings_def
      quiet_def tablet_handler_def wide_screen_def detectMobileDevice_def detectTabletDevice_def
      onWindowResize_def Let_def)

subsection \<open>Low windows\<close>

text \<open>
  Claim C5, as the code has it (\<^verbatim>\<open>ResponsiveHandler.adjustQualityBasedOnPerformance\<close>).
  An evaluation that returns, with a smoothed rate below 30, has incremented the counter of
  consecutive low windows; the level has dropped by one step (high to medium, medium to
  low) only when the counter reached 3, and the counter is then reset; at low nothing
  drops.  An evaluation returns whenever applying the medium settings does, so whenever
  there are no particles.  While the handler is monitoring, the counter is at most 2
  between evaluations, through every sequence of windows and resizes.  Fed 20, 20, 20 at
  high, the top level of this controller, the level is high after the first and the second
  window and medium after the third, if the third returns.
\<close>

theorem downgrade_after_three_low_windows:
  "(fps < 30 \<and> evaluate fps env r = (None, r') \<longrightarrow>
      (lowFpsCount r + 1 < 3 \<longrightarrow>
         lowFpsCount r' = lowFpsCount r + 1 \<and> qualityLevel r' = qualityLevel r)
      \<and> (3 \<le> lowFpsCount r + 1 \<longrightarrow>
           lowFpsCount r' = 0
           \<and> qualityLevel r'
               = (case qualityLevel r of High \<Rightarrow> Medium | Medium \<Rightarrow> Low | q \<Rightarrow> q))
      \<and> (qualityLevel r = Low \<longrightarrow> qualityLevel r' = Low))
   \<and> (applyQualitySettings env Medium = None \<longrightarrow> fst (evaluate fps env r) = None)
   \<and> (particles env = None \<longrightarrow> fst (evaluate fps env r) = None)
   \<and> (setupAdaptiveQuality mobile tablet env0 = Inr r0 \<and> monitoring (feed hs r0) \<longrightarrow>
        lowFpsCount (feed hs r0) \<le> 2)
   \<and> (qualityLevel r = High \<and> lowFpsCount r = 0 \<and> monitoring r
        \<and> applyQualitySettings e3 Medium = None \<longrightarrow>
        qualityLevel (feed [Window 20 e1] r) = High
        \<and> qualityLevel (feed [Window 20 e1, Window 20 e2] r) = High
        \<and> qualityLevel (feed [Window 20 e1, Window 20 e2, Window 20 e3] r) = Medium
        \<and> lowFpsCount (feed [Window 20 e1, Window 20 e2, Window 20 e3] r) = 0
        \<and> monitoring (feed [Window 20 e1, Window 20 e2, Window 20 e3] r))"
proof (intro conjI impI)
  assume h: "fps < 30 \<and> evaluate fps env r = (None, r')"
  then have r': "r' =
    (if 3 \<le> lowFpsCount r + 1
     then r\<lparr>avgFps := fps, lowFpsCount := 0,
            qualityLevel := (case qualityLevel r of High \<Rightarrow> Medium | Medium \<Rightarrow> Low | q \<Rightarrow> q)\<rparr>
     else r\<lparr>avgFps := fps, lowFpsCount := lowFpsCount r + 1\<rparr>)"
    using evaluate_low [of fps env r r'] by simp
  { assume "lowFpsCount r + 1 < 3"
    then show "lowFpsCount r' = lowFpsCount r + 1" "qualityLevel r' = qualityLevel r"
      using r' by simp_all }
  { assume "3 \<le> lowFpsCount r + 1"
    then show "lowFpsCount r' = 0"
      "qualityLevel r' = (case qualityLevel r of High \<Rightarrow> Medium | Medium \<Rightarrow> Low | q \<Rightarrow> q)"
      using r' by simp_all }
  { assume "qualityLevel r = Low"
    then show "qualityLevel r' = Low" using r' by simp }
next
  assume "applyQualitySettings env Medium = None"
  then show "fst (evaluate fps env r) = None" by (rule evaluate_returns)
next
  assume "particles env = None"
  then have "applyQualitySettings env Medium = None" by (rule applyQualitySettings_no_particles)
  then show "fst (evaluate fps env r) = None" by (rule evaluate_returns)
next
  assume h: "setupAdaptiveQuality mobile tablet env0 = Inr r0 \<and> monitoring (feed hs r0)"
  then have "lowFpsCount r0 = 0" using setupAdaptiveQuality_fresh [of mobile tablet env0 r0] by simp
  then have "monitoring (feed hs r0) \<longrightarrow> lowFpsCount (feed hs r0) \<le> 2"
    by (intro feed_counter) simp
  then show "lowFpsCount (feed hs r0) \<le> 2" using h by simp
next
  assume h: "qualityLevel r = High \<and> lowFpsCount r = 0 \<and> monitoring r
        \<and> applyQualitySettings e3 Medium = None"
  then have run: "feed [Window 20 e1] r = r\<lparr>avgFps := 20, lowFpsCount := 1\<rparr>"
    "feed [Window 20 e1, Window 20 e2] r = r\<lparr>avgFps := 20, lowFpsCount := 2\<rparr>"
    "feed [Window 20 e1, Window 20 e2, Window 20 e3] r
       = r\<lparr>avgFps := 20, lowFpsCount := 0, qualityLevel := Medium\<rparr>"
    by (simp_all add: evaluate_def adjustQualityBasedOnPerformance_def Let_def)
  show "qualityLevel (feed [Window 20 e1] r) = High"
    "qualityLevel (feed [Window 20 e1, Window 20 e2] r) = High"
    "qualityLevel (feed [Window 20 e1, Window 20 e2, Window 20 e3] r) = Medium"
    "lowFpsCount (feed [Window 20 e1, Window 20 e2, Window 20 e3] r) = 0"
    "monitoring (feed [Window 20 e1, Window 20 e2, Window 20 e3] r)"
    using h by (simp_all only: run) simp_all
qed

text \<open>
  The theorem on a desktop, which starts at high, with the opening particles about during
  the second window; on a phone, which starts at low; and on a run with a resize.
\<close>

theorem downgrade_after_three_low_windows_witness:
  "qualityLevel (feed [Window 20 quiet] desktop_handler) = High
   \<and> qualityLevel (feed [Window 20 quiet, Window 20 with_particles] desktop_handler) = High
   \<and> qualityLevel (feed [Window 20 quiet, Window 20 with_particles, Window 20 quiet]
        desktop_handler) = Medium
   \<and> lowFpsCount (feed [Window 20 quiet, Window 20 with_particles, Window 20 quiet]
        desktop_handler) = 0
   \<and> fst (evaluate 12 quiet phone_handler) = None
   \<and> lowFpsCount (snd (evaluate 12 quiet phone_handler)) = 1
   \<and> qualityLevel (snd (evaluate 12 quiet phone_handler)) = Low
   \<and> lowFpsCount (feed [Window 20 quiet, Resize wide_screen, Window 10 quiet] tablet_handler) \<le> 2"
proof -
  let ?r' = "snd (evaluate 12 quiet phone_handler)"
  have q: "particles quiet = None" "applyQualitySettings quiet Medium = None"
    by (simp_all add: quiet_def applyQualitySettings_def)
  have ret: "fst (evaluate 12 quiet phone_handler) = None"
    using q(1) downgrade_after_three_low_windows
      [where fps = 12 and env = quiet and r = phone_handler]
    by blast
  then have ev: "(12::rat) < 30 \<and> evaluate 12 quiet phone_handler = (None, ?r')"
    by (simp add: prod_eq_iff)
  have p: "lowFpsCount phone_handler + 1 < 3" "qualityLevel phone_handler = Low"
    by (simp_all add: phone_handler_def)
  have 1: "lowFpsCount ?r' = 1 \<and> qualityLevel ?r' = Low"
    using ev p downgrade_after_three_low_windows
      [where fps = 12 and env = quiet and r = phone_handler and r' = ?r']
    by (simp add: phone_handler_def)
  have d: "qualityLevel desktop_handler = High \<and> lowFpsCount desktop_handler = 0
      \<and> monitoring desktop_handler \<and> applyQualitySettings quiet Medium = None"
    using q(2) by (simp add: desktop_handler_def)
  have 2: "qualityLevel (feed [Window 20 quiet] desktop_handler) = High
      \<and> qualityLevel (feed [Window 20 quiet, Window 20 with_particles] desktop_handler) = High
      \<and> qualityLevel (feed [Window 20 quiet, Window 20 with_particles, Window 20 quiet]
           desktop_handler) = Medium
      \<and> lowFpsCount (feed [Window 20 quiet, Window 20 with_particles, Window 20 quiet]
           desktop_handler) = 0"
    using d downgrade_after_three_low_windows
      [where r = desktop_handler and ?e1.0 = quiet and ?e2.0 = with_particles and ?e3.0 = quiet]
    by blast
  have m: "monitoring (feed [Window 20 quiet, Resize wide_screen, Window 10 quiet] tablet_handler)"
    by (simp add: tablet_handler_def quiet_def wide_screen_def evaluate_def
        adjustQualityBasedOnPerformance_def applyQualitySettings_def onWindowResize_def Let_def)
  have 3: "lowFpsCount (feed [Window 20 quiet, Resize wide_screen, Window 10 quiet] tablet_handler) \<le> 2"
    using m setupAdaptiveQuality_examples(2) downgrade_after_three_low_windows
      [where mobile = False and tablet = True and ?env0.0 = quiet and ?r0.0 = tablet_handler
         and hs = "[Window 20 quiet, Resize wide_screen, Window 10 quiet]"]
    by blast
  from ret 1 2 3 show ?thesis by simp
qed

text \<open>
  Claim C5 as stated fails at ultra: \<^verbatim>\<open>ResponsiveHandler\<close> has no rule for that level,
  and \<^verbatim>\<open>PerformanceOptimizer\<close> set to ultra stays there; three low windows leave ultra
  in place.
\<close>

theorem ultra_is_not_downgraded:
  "qualityLevel (feed [Window 20 quiet, Window 20 quiet, Window 20 quiet]
      (desktop_handler\<lparr>qualityLevel := Ultra\<rparr>)) = Ultra
   \<and> monitoring (feed [Window 20 quiet, Window 20 quiet, Window 20 quiet]
      (desktop_handler\<lparr>qualityLevel := Ultra\<rparr>))
   \<and> currentOptimizationLevel
        (autoOptimize (applyOptimizationLevel Ultra
           \<lparr>currentOptimizationLevel = Auto, fpsHistory = [20, 20, 20], renderQuality = None,
            mipmapQuality = None, mobileAgent = False, hardwareConcurrency = 8\<rparr>)) = Ultra
   \<and> renderQuality
        (autoOptimize (applyOptimizationLevel Ultra
           \<lparr>currentOptimizationLevel = Auto, fpsHistory = [20, 20, 20], renderQuality = None,
            mipmapQuality = None, mobileAgent = False, hardwareConcurrency = 8\<rparr>)) = Some Ultra"
  by (simp add: desktop_handler_def quiet_def evaluate_def adjustQualityBasedOnPerformance_def
      autoOptimize_def applyOptimizationLevel_def Let_def)

subsection \<open>High windows\<close>

text \<open>
  Claim C6, as the code has it (\<^verbatim>\<open>ResponsiveHandler.adjustQualityBasedOnPerformance\<close>).
  An evaluation that returns, with a smoothed rate above 55, has reset the counter and
  raised the level by one step at once: low to medium unless the device is detected as a
  phone, medium to high unless it is detected as a phone or a tablet; high is the top level
  and stays.  So an evaluation made while the device is detected as a phone or a tablet
  never raises the level to high.  An evaluation returns whenever there are no particles.
  A handler built on a device detected as a phone or a tablet, which starts at low or
  medium, is at low or medium after every sequence of windows and resizes in which each
  resize detects a phone or a tablet again.
\<close>

theorem upgrade_after_one_high_window:
  "(55 < fps \<and> evaluate fps env r = (None, r') \<longrightarrow>
      lowFpsCount r' = 0
      \<and> qualityLevel r'
          = (if qualityLevel r = Low \<and> \<not> isMobile r then Medium
             else if qualityLevel r = Medium \<and> \<not> isMobile r \<and> \<not> isTablet r then High
             else qualityLevel r)
      \<and> ((isMobile r \<or> isTablet r) \<and> qualityLevel r \<noteq> High \<longrightarrow> qualityLevel r' \<noteq> High))
   \<and> (particles env = None \<longrightarrow> fst (evaluate fps env r) = None)
   \<and> (setupAdaptiveQuality mobile tablet env0 = Inr r0 \<and> (mobile \<or> tablet)
        \<and> (\<forall>d. Resize d \<in> set hs \<longrightarrow> detectMobileDevice d \<or> detectTabletDevice d) \<longrightarrow>
        qualityLevel (feed hs r0) = Low \<or> qualityLevel (feed hs r0) = Medium)"
proof (intro conjI impI)
  assume h: "55 < fps \<and> evaluate fps env r = (None, r')"
  then have r': "r' = r\<lparr>avgFps := fps, lowFpsCount := 0,
       qualityLevel := (if qualityLevel r = Low \<and> \<not> isMobile r then Medium
                        else if qualityLevel r = Medium \<and> \<not> isMobile r \<and> \<not> isTablet r then High
                        else qualityLevel r)\<rparr>"
    using evaluate_high [of fps env r] by simp
  show "lowFpsCount r' = 0" using r' by simp
  show "qualityLevel r'
          = (if qualityLevel r = Low \<and> \<not> isMobile r then Medium
             else if qualityLevel r = Medium \<and> \<not> isMobile r \<and> \<not> isTablet r then High
             else qualityLevel r)"
    using r' by simp
  { assume "(isMobile r \<or> isTablet r) \<and> qualityLevel r \<noteq> High"
    then show "qualityLevel r' \<noteq> High" using r' by auto }
next
  assume "particles env = None"
  then have "applyQualitySettings env Medium = None" by (rule applyQualitySettings_no_particles)
  then show "fst (evaluate fps env r) = None" by (rule evaluate_returns)
next
  assume h: "setupAdaptiveQuality mobile tablet env0 = Inr r0 \<and> (mobile \<or> tablet)
        \<and> (\<forall>d. Resize d \<in> set hs \<longrightarrow> detectMobileDevice d \<or> detectTabletDevice d)"
  then have f: "isMobile r0 = mobile" "isTablet r0 = tablet"
    "qualityLevel r0 = (if mobile then Low else if tablet then Medium else High)"
    using setupAdaptiveQuality_fresh [of mobile tablet env0 r0] by simp_all
  have "isMobile r0 \<or> isTablet r0" using h f by simp
  moreover have "qualityLevel r0 = Low \<or> qualityLevel r0 = Medium" using h f by auto
  ultimately show "qualityLevel (feed hs r0) = Low \<or> qualityLevel (feed hs r0) = Medium"
    using h by (intro feed_ceiling) simp_all
qed

text \<open>
  The theorem on a desktop at low, on a tablet and on a phone, and on a tablet whose
  window is resized within the tablet range.
\<close>

theorem upgrade_after_one_high_window_witness:
  "qualityLevel (snd (evaluate 60 quiet (desktop_handler\<lparr>qualityLevel := Low, lowFpsCount := 2\<rparr>)))
     = Medium
   \<and> lowFpsCount (snd (evaluate 60 quiet (desktop_handler\<lparr>qualityLevel := Low, lowFpsCount := 2\<rparr>)))
     = 0
   \<and> qualityLevel (snd (evaluate 60 quiet tablet_handler)) = Medium
   \<and> qualityLevel (snd (evaluate 60 quiet phone_handler)) = Low
   \<and> qualityLevel (feed [Window 60 quiet, Resize (wide_screen\<lparr>innerWidth := 800\<rparr>),
        Window 60 quiet] tablet_handler) \<noteq> High"
proof -
  let ?low = "desktop_handler\<lparr>qualityLevel := Low, lowFpsCount := 2\<rparr>"
  have q: "particles quiet = None" by (simp add: quiet_def)
  have ret: "fst (evaluate 60 quiet r) = None" for r
    using q upgrade_after_one_high_window [where fps = 60 and env = quiet and r = r] by blast
  have ev: "(55::rat) < 60 \<and> evaluate 60 quiet r = (None, snd (evaluate 60 quiet r))" for r
    using ret [of r] by (simp add: prod_eq_iff)
  have 1: "qualityLevel (snd (evaluate 60 quiet ?low)) = Medium
      \<and> lowFpsCount (snd (evaluate 60 quiet ?low)) = 0"
    using ev [of ?low] upgrade_after_one_high_window
      [where fps = 60 and env = quiet and r = ?low and r' = "snd (evaluate 60 quiet ?low)"]
    by (simp add: desktop_handler_def)
  have 2: "qualityLevel (snd (evaluate 60 quiet tablet_handler)) = Medium"
    using ev [of tablet_handler] upgrade_after_one_high_window
      [where fps = 60 and env = quiet and r = tablet_handler
         and r' = "snd (evaluate 60 quiet tablet_handler)"]
    by (simp add: tablet_handler_def)
  have 3: "qualityLevel (snd (evaluate 60 quiet phone_handler)) = Low"
    using ev [of phone_handler] upgrade_after_one_high_window
      [where fps = 60 and env = quiet and r = phone_handler
         and r' = "snd (evaluate 60 quiet phone_handler)"]
    by (simp add: phone_handler_def)
  let ?hs = "[Window 60 quiet, Resize (wide_screen\<lparr>innerWidth := 800\<rparr>), Window 60 quiet]"
  have rs: "\<forall>d. Resize d \<in> set ?hs \<longrightarrow> detectMobileDevice d \<or> detectTabletDevice d"
    by (simp add: detectTabletDevice_def wide_screen_def)
  have "qualityLevel (feed ?hs tablet_handler) = Low \<or> qualityLevel (feed ?hs tablet_handler) = Medium"
    using rs setupAdaptiveQuality_examples(2) upgrade_after_one_high_window
      [where mobile = False and tablet = True and ?env0.0 = quiet and ?r0.0 = tablet_handler
         and hs = ?hs]
    by blast
  then have 4: "qualityLevel (feed ?hs tablet_handler) \<noteq> High" by auto
  from 1 2 3 4 show ?thesis by simp
qed

text \<open>
  Claim C6 as stated fails at high: one window at 60 leaves a desktop at high, where the
  claim has a step up to ultra; \<^verbatim>\<open>PerformanceOptimizer\<close> does not step up either.
  And the ceiling is the detection of the moment: a handler built while the device is
  detected as a tablet rises to high after a resize that detects a desktop.
\<close>

theorem high_is_not_upgraded:
  "qualityLevel desktop_handler = High
   \<and> setupAdaptiveQuality False True quiet = Inr tablet_handler
   \<and> qualityLevel (feed [Resize wide_screen, Window 60 quiet] tablet_handler) = High
   \<and> fst (evaluate 60 quiet desktop_handler) = None
   \<and> qualityLevel (snd (evaluate 60 quiet desktop_handler)) = High
   \<and> currentOptimizationLevel
        (autoOptimize (applyOptimizationLevel High
           \<lparr>currentOptimizationLevel = Auto, fpsHistory = [60], renderQuality = None,
            mipmapQuality = None, mobileAgent = False, hardwareConcurrency = 8\<rparr>)) = High
   \<and> renderQuality
        (autoOptimize (applyOptimizationLevel Auto
           \<lparr>currentOptimizationLevel = Auto, fpsHistory = [60], renderQuality = None,
            mipmapQuality = None, mobileAgent = False, hardwareConcurrency = 8\<rparr>)) = Some High"
  by (simp add: desktop_handler_def tablet_handler_def quiet_def wide_screen_def
      setupAdaptiveQuality_def evaluate_def adjustQualityBasedOnPerformance_def
      applyQualitySettings_def onWindowResize_def detectMobileDevice_def
      detectTabletDevice_def autoOptimize_def applyOptimizationLevel_def Let_def)

section \<open>The culler\<close>

lemma cullObject_frame [simp]:
  "parent (cullObject f d ob) = parent ob"
  "originalVisible (cullObject f d ob) = originalVisible ob"
  "originalGeometry (cullObject f d ob) = originalGeometry ob"
  "mediumGeometry (cullObject f d ob) = mediumGeometry ob"
  "lowGeometry (cullObject f d ob) = lowGeometry ob"
  by (simp_all add: cullObject_def Let_def split: option.splits)

lemma cullFrames_frame [simp]:
  "parent (cullFrames fs ob) = parent ob"
  "originalVisible (cullFrames fs ob) = originalVisible ob"
  "originalGeometry (cullFrames fs ob) = originalGeometry ob"
  "mediumGeometry (cullFrames fs ob) = mediumGeometry ob"
  "lowGeometry (cullFrames fs ob) = lowGeometry ob"
  by (induction fs ob rule: cullFrames.induct) simp_all

lemma cullFrames_append: "cullFrames (fs @ gs) ob = cullFrames gs (cullFrames fs ob)"
  by (induction fs ob rule: cullFrames.induct) simp_all

lemma cullObject_visible: "parent ob \<Longrightarrow> visible (cullObject f d ob) = (f \<and> originalVisible ob)"
  by (simp add: cullObject_def Let_def split: option.splits)

lemma cullObject_hidden:
  "\<not> visible ob \<Longrightarrow> \<not> originalVisible ob \<Longrightarrow> \<not> visible (cullObject f d ob)"
  by (simp add: cullObject_def Let_def split: option.splits)

lemma cullFrames_hidden:
  "\<not> visible ob \<Longrightarrow> \<not> originalVisible ob \<Longrightarrow> \<not> visible (cullFrames fs ob)"
  by (induction fs ob rule: cullFrames.induct) (simp_all add: cullObject_hidden)

lemma setupCulling_registered:
  "ob \<in> set (setupCulling scene) \<Longrightarrow> originalVisible ob = visible ob"
  by (auto simp: setupCulling_def)

text \<open>
  Claim C8, as the code has it.  For an object still in the scene, the visibility the
  culler sets in a frame is the frustum test and the baseline flag \<open>originalVisible\<close>
  together, for one object and along the whole list, whatever the visibility of the object
  was before the frame.  The baseline is the visibility the object had when
  \<^verbatim>\<open>setupCulling\<close> registered it, so an object that was hidden at that moment stays
  hidden in every later frame, inside the frustum or not.
\<close>

theorem culled_visibility:
  "(parent ob \<longrightarrow> visible (cullObject inFrustum distance ob) = (inFrustum \<and> originalVisible ob))
   \<and> (parent ob \<longrightarrow>
        visible (cullObject inFrustum distance (ob\<lparr>visible := v\<rparr>))
          = (inFrustum \<and> originalVisible ob))
   \<and> ((\<forall>ob\<in>set cullableObjects. parent ob) \<longrightarrow>
        map visible (updateCulling inView distanceOf cullableObjects)
          = map (\<lambda>ob. inView ob \<and> originalVisible ob) cullableObjects)
   \<and> (ob \<in> set (setupCulling scene) \<longrightarrow> originalVisible ob = visible ob)
   \<and> (ob \<in> set (setupCulling scene) \<and> \<not> visible ob \<longrightarrow> \<not> visible (cullFrames fs ob))"
proof (intro conjI impI)
  assume "parent ob"
  then show "visible (cullObject inFrustum distance ob) = (inFrustum \<and> originalVisible ob)"
    by (rule cullObject_visible)
next
  assume "parent ob"
  then have "parent (ob\<lparr>visible := v\<rparr>)" by simp
  then have "visible (cullObject inFrustum distance (ob\<lparr>visible := v\<rparr>))
      = (inFrustum \<and> originalVisible (ob\<lparr>visible := v\<rparr>))"
    by (rule cullObject_visible)
  then show "visible (cullObject inFrustum distance (ob\<lparr>visible := v\<rparr>))
      = (inFrustum \<and> originalVisible ob)"
    by simp
next
  assume "\<forall>ob\<in>set cullableObjects. parent ob"
  then show "map visible (updateCulling inView distanceOf cullableObjects)
      = map (\<lambda>ob. inView ob \<and> originalVisible ob) cullableObjects"
    by (simp add: updateCulling_def cullObject_visible)
next
  assume "ob \<in> set (setupCulling scene)"
  then show "originalVisible ob = visible ob" by (rule setupCulling_registered)
next
  assume h: "ob \<in> set (setupCulling scene) \<and> \<not> visible ob"
  then have "\<not> originalVisible ob" using setupCulling_registered [of ob scene] by simp
  with h show "\<not> visible (cullFrames fs ob)" by (simp add: cullFrames_hidden)
qed

text \<open>
  The theorem on a scene of three meshes, one of them hidden, and on a mesh whose
  visibility is assigned between registration and the frame.
\<close>

theorem culled_visibility_witness:
  "visible (cullObject True 3 (hd (setupCulling [lid])))
   \<and> \<not> visible (cullObject False 3 (hd (setupCulling [lid])))
   \<and> \<not> visible (cullObject False 3 ((hd (setupCulling [lid]))\<lparr>visible := True\<rparr>))
   \<and> map visible (updateCulling (\<lambda>ob. positionCount ob = 2000) (\<lambda>ob. 3)
        (setupCulling [lid, lid\<lparr>positionCount := 8\<rparr>, lid\<lparr>visible := False\<rparr>]))
       = [True, False, False]
   \<and> \<not> visible (cullFrames [(True, 3), (True, 12)] (hd (setupCulling [lid\<lparr>visible := False\<rparr>])))"
proof -
  let ?scene = "[lid, lid\<lparr>positionCount := 8\<rparr>, lid\<lparr>visible := False\<rparr>]"
  let ?hidden = "hd (setupCulling [lid\<lparr>visible := False\<rparr>])"
  have p: "parent (hd (setupCulling [lid]))" "originalVisible (hd (setupCulling [lid]))"
    by (simp_all add: setupCulling_def lid_def)
  have q: "\<forall>ob\<in>set (setupCulling ?scene). parent ob"
    by (simp add: setupCulling_def lid_def)
  have v: "map (\<lambda>ob. positionCount ob = 2000 \<and> originalVisible ob) (setupCulling ?scene)
      = [True, False, False]"
    by (simp add: setupCulling_def lid_def)
  have h: "?hidden \<in> set (setupCulling [lid\<lparr>visible := False\<rparr>]) \<and> \<not> visible ?hidden"
    by (simp add: setupCulling_def lid_def)
  have 1: "visible (cullObject True 3 (hd (setupCulling [lid])))
      \<and> \<not> visible (cullObject False 3 (hd (setupCulling [lid])))
      \<and> \<not> visible (cullObject False 3 ((hd (setupCulling [lid]))\<lparr>visible := True\<rparr>))"
    using p culled_visibility [where ob = "hd (setupCulling [lid])" and inFrustum = True
        and distance = 3]
      culled_visibility [where ob = "hd (setupCulling [lid])" and inFrustum = False
        and distance = 3 and v = True]
    by simp
  have 2: "map visible (updateCulling (\<lambda>ob. positionCount ob = 2000) (\<lambda>ob. 3)
        (setupCulling ?scene)) = [True, False, False]"
    using q v culled_visibility [where cullableObjects = "setupCulling ?scene"
        and inView = "\<lambda>ob. positionCount ob = 2000" and distanceOf = "\<lambda>ob. 3"]
    by simp
  have 3: "\<not> visible (cullFrames [(True, 3), (True, 12)] ?hidden)"
    using h culled_visibility [where ob = ?hidden and scene = "[lid\<lparr>visible := False\<rparr>]"
        and fs = "[(True, 3), (True, 12)]"]
    by blast
  from 1 2 3 show ?thesis by simp
qed

text \<open>
  Claim C8 as stated fails for an object hidden after its registration: the mesh was
  visible when \<^verbatim>\<open>setupCulling\<close> stored its baseline, it is hidden afterwards, and the
  next frame that finds it in the frustum shows it again.
\<close>

theorem hidden_after_registration_is_shown_again:
  "parent (hd (setupCulling [lid]))
   \<and> originalVisible (hd (setupCulling [lid]))
   \<and> \<not> visible ((hd (setupCulling [lid]))\<lparr>visible := False\<rparr>)
   \<and> visible (cullObject True 3 ((hd (setupCulling [lid]))\<lparr>visible := False\<rparr>))"
  by (simp add: setupCulling_def lid_def cullObject_def Let_def)

text \<open>
  Claim C9.  For a visible object in the scene with its three geometries stored, the
  geometry after a frame at distance \<open>d\<close> is the low one when \<open>d > 10\<close>, the medium one
  when \<open>5 < d \<le> 10\<close> and the full one when \<open>d \<le> 5\<close>; and that is so after any
  earlier frames, so coming back under a threshold restores the richer geometry.
\<close>

theorem lod_selection:
  assumes "parent ob" and "originalVisible ob"
    and "originalGeometry ob = Some full"
    and "mediumGeometry ob = Some medium"
    and "lowGeometry ob = Some low"
  shows "geometry (cullObject True d ob)
           = (if 10 < d then low else if 5 < d then medium else full)
       \<and> geometry (cullFrames (fs @ [(True, d)]) ob)
           = (if 10 < d then low else if 5 < d then medium else full)"
proof -
  have one: "\<And>x. parent x \<Longrightarrow> originalVisible x \<Longrightarrow> originalGeometry x = Some full \<Longrightarrow>
      mediumGeometry x = Some medium \<Longrightarrow> lowGeometry x = Some low \<Longrightarrow>
      geometry (cullObject True d x) = (if 10 < d then low else if 5 < d then medium else full)"
    by (simp add: cullObject_def Let_def)
  have "geometry (cullObject True d (cullFrames fs ob))
      = (if 10 < d then low else if 5 < d then medium else full)"
    using assms by (intro one) simp_all
  then show ?thesis using one [OF assms] by (simp add: cullFrames_append)
qed

text \<open>The theorem at distances 11, 7 and 2, for a mesh prepared by \<^verbatim>\<open>setupModelLOD\<close>.\<close>

theorem lod_selection_witness:
  "geometry (cullObject True 11 (setupModelLOD (hd (setupCulling [lid])))) = Simplified (Source 0) (1 / 4)
   \<and> geometry (cullObject True 7 (setupModelLOD (hd (setupCulling [lid])))) = Simplified (Source 0) (1 / 2)
   \<and> geometry (cullObject True 2 (setupModelLOD (hd (setupCulling [lid])))) = Source 0
   \<and> geometry (cullFrames [(True, 11), (True, 7)] (setupModelLOD (hd (setupCulling [lid]))))
       = Simplified (Source 0) (1 / 2)
   \<and> geometry (cullFrames [(True, 11), (True, 2)] (setupModelLOD (hd (setupCulling [lid])))) = Source 0"
proof -
  let ?ob = "setupModelLOD (hd (setupCulling [lid]))"
  have h: "parent ?ob" "originalVisible ?ob" "originalGeometry ?ob = Some (Source 0)"
    "mediumGeometry ?ob = Some (Simplified (Source 0) (1 / 2))"
    "lowGeometry ?ob = Some (Simplified (Source 0) (1 / 4))"
    by (simp_all add: setupModelLOD_def setupCulling_def lid_def Let_def)
  show ?thesis
    using lod_selection [OF h, of 11 "[]"] lod_selection [OF h, of 7 "[(True, 11)]"]
      lod_selection [OF h, of 2 "[(True, 11)]"]
    by simp
qed

end
